theory Spec2Isabelle
  imports Main
begin

section \<open>iPhone Favorites Saver: the reconciliation core of \<^verbatim>\<open>iphone-favorites-saver.py\<close>\<close>

subsection \<open>Python strings\<close>

text \<open>
  A Python \<^verbatim>\<open>str\<close> is a sequence of Unicode code points: here a list of natural numbers.
  \<open>u\<close> reads an ASCII literal as such a list, so that \<open>u ''APPLE''\<close> is the text
  \<^verbatim>\<open>"APPLE"\<close>.
\<close>

type_synonym ustring = "nat list"

definition u :: "string \<Rightarrow> ustring" where
  "u s = map of_char s"

definition slash :: nat where
  "slash = 47"

definition backslash :: nat where
  "backslash = 92"

definition dot :: nat where
  "dot = 46"

text \<open>
  Four methods of \<^verbatim>\<open>str\<close> consult Python's Unicode database, which is no part of the
  repository: \<^verbatim>\<open>str.upper\<close>, \<^verbatim>\<open>str.lower\<close>, \<^verbatim>\<open>str.isdigit\<close> and \<^verbatim>\<open>str.strip\<close>. They
  are parameters of the model, the four fields of a \<open>py_str\<close>. Every definition that
  calls one of them takes the \<open>py_str\<close> as its first argument, and nothing is assumed
  about the four functions: what is proved for every \<open>py_str\<close> holds for Python's.
\<close>

record py_str =
  str_upper :: "ustring \<Rightarrow> ustring"
  str_lower :: "ustring \<Rightarrow> ustring"
  str_isdigit :: "ustring \<Rightarrow> bool"
  str_strip :: "ustring \<Rightarrow> ustring"

text \<open>
  On text of ASCII characters the four methods are these: the letters \<^verbatim>\<open>a-z\<close> and
  \<^verbatim>\<open>A-Z\<close> change case, a string is a digit string when it is not empty and all its
  characters are among \<^verbatim>\<open>0-9\<close>, and the characters 9 to 13, 28 to 31 and the space are
  stripped at both ends. \<open>ascii_str\<close> is used for the concrete runs of this theory, all
  of them on ASCII text; beyond ASCII it leaves every character alone, which Python does
  not.
\<close>

definition ascii_space :: "nat \<Rightarrow> bool" where
  "ascii_space c = (c \<in> set [9, 10, 11, 12, 13, 28, 29, 30, 31, 32])"

definition ascii_str :: py_str where
  "ascii_str =
     \<lparr>str_upper = map (\<lambda>c. if 97 \<le> c \<and> c \<le> 122 then c - 32 else c),
      str_lower = map (\<lambda>c. if 65 \<le> c \<and> c \<le> 90 then c + 32 else c),
      str_isdigit = (\<lambda>s. s \<noteq> [] \<and> list_all (\<lambda>c. 48 \<le> c \<and> c \<le> 57) s),
      str_strip = (\<lambda>s. rev (dropWhile ascii_space (rev (dropWhile ascii_space s))))\<rparr>"

text \<open>\<^verbatim>\<open>s.endswith(suf)\<close>.\<close>

definition endswith :: "ustring \<Rightarrow> ustring \<Rightarrow> bool" where
  "endswith s suf = (length suf \<le> length s \<and> drop (length s - length suf) s = suf)"

text \<open>\<^verbatim>\<open>s.split(sep)\<close> for a one-character separator: always at least one piece.\<close>

fun split_on :: "nat \<Rightarrow> ustring \<Rightarrow> ustring list" where
  "split_on sep [] = [[]]"
| "split_on sep (c # cs) =
     (if c = sep then [] # split_on sep cs
      else (case split_on sep cs of
              [] \<Rightarrow> [[c]]
            | p # ps \<Rightarrow> (c # p) # ps))"

text \<open>\<^verbatim>\<open>sep.join(parts)\<close>.\<close>

fun join :: "ustring \<Rightarrow> ustring list \<Rightarrow> ustring" where
  "join sep [] = []"
| "join sep [p] = p"
| "join sep (p # q # ps) = p @ sep @ join sep (q # ps)"

text \<open>\<^verbatim>\<open>s.replace("\\", "/")\<close>.\<close>

definition replace_backslash :: "ustring \<Rightarrow> ustring" where
  "replace_backslash s = map (\<lambda>c. if c = backslash then slash else c) s"

subsection \<open>\<^verbatim>\<open>pathlib\<close> on a POSIX host\<close>

text \<open>
  \<^verbatim>\<open>Path(s)\<close> keeps a root (\<^verbatim>\<open>/\<close>, or \<^verbatim>\<open>//\<close> for exactly two leading slashes) and the
  segments between slashes that are neither empty nor \<^verbatim>\<open>.\<close>; \<^verbatim>\<open>as_posix()\<close> prints
  them joined by \<^verbatim>\<open>/\<close>, and the empty path as \<^verbatim>\<open>.\<close>.
\<close>

definition path_root :: "ustring \<Rightarrow> ustring" where
  "path_root s =
     (if take 2 s = [slash, slash] \<and> take 3 s \<noteq> [slash, slash, slash] then [slash, slash]
      else if take 1 s = [slash] then [slash]
      else [])"

definition path_segments :: "ustring \<Rightarrow> ustring list" where
  "path_segments s = filter (\<lambda>p. p \<noteq> [] \<and> p \<noteq> [dot]) (split_on slash s)"

definition as_posix :: "ustring \<Rightarrow> ustring" where
  "as_posix s =
     (let r = path_root s; ps = path_segments s
      in if r = [] \<and> ps = [] then [dot] else r @ join [slash] ps)"

text \<open>
  \<^verbatim>\<open>Path(a) / b\<close>, as text before parsing: an absolute \<^verbatim>\<open>b\<close> replaces \<^verbatim>\<open>a\<close>, otherwise
  the two are joined by one slash.
\<close>

definition path_join :: "ustring \<Rightarrow> ustring \<Rightarrow> ustring" where
  "path_join a b =
     (if take 1 b = [slash] then b
      else if a = [] \<or> endswith a [slash] then a @ b
      else a @ [slash] @ b)"

subsection \<open>The path normalizer\<close>

definition APPLE_SUFFIX :: ustring where
  "APPLE_SUFFIX = u ''APPLE''"

text \<open>
  The test of \<^verbatim>\<open>truncate_to_apple_path\<close> and \<^verbatim>\<open>scan_photo_files\<close>:
  \<^verbatim>\<open>part.upper().endswith(APPLE_SUFFIX) and part[:-5].isdigit()\<close>. The slice
  \<^verbatim>\<open>part[:-5]\<close> is \<^verbatim>\<open>part\<close> without its last five characters, and empty when there are
  fewer than five.
\<close>

definition is_apple_dir :: "py_str \<Rightarrow> ustring \<Rightarrow> bool" where
  "is_apple_dir py part =
     (endswith (str_upper py part) APPLE_SUFFIX \<and> str_isdigit py (take (length part - 5) part))"

text \<open>
  \<^verbatim>\<open>
  def build_relative_path(directory, filename):
      if not directory:
          return filename
      combined = Path(directory) / filename
      return combined.as_posix()
  \<close>
\<close>

definition build_relative_path :: "ustring \<Rightarrow> ustring \<Rightarrow> ustring" where
  "build_relative_path directory filename =
     (if directory = [] then filename
      else as_posix (path_join directory filename))"

text \<open>
  \<^verbatim>\<open>
  def truncate_to_apple_path(path_str):
      parts = path_str.replace("\\", "/").split("/")
      for idx, part in enumerate(parts):
          if part.upper().endswith(APPLE_SUFFIX) and part[:-5].isdigit():
              return "/".join(parts[idx:])
      return path_str.replace("\\", "/")
  \<close>
  The loop walks \<^verbatim>\<open>parts\<close> from the front; at position \<^verbatim>\<open>idx\<close> the list handed to
  \<open>truncate_loop\<close> is \<^verbatim>\<open>parts[idx:]\<close>. \<open>None\<close> is the loop running to its end.
\<close>

fun truncate_loop :: "py_str \<Rightarrow> ustring list \<Rightarrow> ustring option" where
  "truncate_loop py [] = None"
| "truncate_loop py (part # rest) =
     (if is_apple_dir py part then Some (join [slash] (part # rest))
      else truncate_loop py rest)"

definition truncate_to_apple_path :: "py_str \<Rightarrow> ustring \<Rightarrow> ustring" where
  "truncate_to_apple_path py path_str =
     (case truncate_loop py (split_on slash (replace_backslash path_str)) of
        Some r \<Rightarrow> r
      | None \<Rightarrow> replace_backslash path_str)"

text \<open>
  \<^verbatim>\<open>
  def normalize_rel_path(rel_path):
      return Path(rel_path).as_posix().lower()
  \<close>
\<close>

definition normalize_rel_path :: "py_str \<Rightarrow> ustring \<Rightarrow> ustring" where
  "normalize_rel_path py rel_path = str_lower py (as_posix rel_path)"

subsection \<open>Data model\<close>

text \<open>
  The dataclasses \<^verbatim>\<open>PhotoMeta\<close>, \<^verbatim>\<open>FileRecord\<close>, \<^verbatim>\<open>MatchedPhoto\<close> and \<^verbatim>\<open>ExifData\<close>.
  The field \<^verbatim>\<open>MatchedPhoto.record\<close> is called \<open>file_record\<close> and
  \<^verbatim>\<open>ExifData.description\<close> is called \<open>exif_description\<close>, to keep the names apart.
\<close>

record PhotoMeta =
  relative_path :: ustring
  favorite :: bool
  description :: ustring

record FileRecord =
  rel_path :: ustring
  full_path :: ustring

record MatchedPhoto =
  file_record :: FileRecord
  meta :: PhotoMeta

record ExifData =
  rating :: "int option"
  exif_description :: "ustring option"

datatype ExifToolError = ExifToolError ustring

text \<open>The two flags of \<^verbatim>\<open>args\<close> that \<^verbatim>\<open>run_migration\<close> reads.\<close>

record Args =
  dry_run :: bool
  overwrite_original :: bool

text \<open>
  The three strings \<^verbatim>\<open>prompt_conflict\<close> can return: \<^verbatim>\<open>"overwrite"\<close>, \<^verbatim>\<open>"skip"\<close>,
  \<^verbatim>\<open>"skip_all"\<close>.
\<close>

datatype decision = Overwrite | Skip | SkipAll

subsection \<open>The external collaborators and the merge session\<close>

text \<open>
  \<^verbatim>\<open>run_migration\<close> talks to the outside three times per pair at most: it reads the
  embedded metadata (\<^verbatim>\<open>read_exif_data\<close>, which raises \<^verbatim>\<open>ExifToolError\<close> or returns an
  \<^verbatim>\<open>ExifData\<close>), it asks the console (\<^verbatim>\<open>prompt_conflict\<close>, which returns one of the three
  decisions), and it runs the write command (\<^verbatim>\<open>run_exiftool\<close>, which raises
  \<^verbatim>\<open>ExifToolError\<close> or returns). The three are parameters of the model, functions of
  an outside world \<open>'w\<close> that each of them may change, so that every deterministic
  behaviour of the tool and of the person at the console is covered. Every invocation is
  appended to \<open>calls\<close>, a log the source does not keep, so that claims about which
  invocations happen can be stated.
  An exception other than \<^verbatim>\<open>ExifToolError\<close> that escapes a collaborator (the console at
  end of input, the tool vanishing from the path) ends the process with a traceback; such
  runs are outside the model.
\<close>

datatype event =
  ReadCall ustring
| PromptCall ustring decision
| WriteCall "ustring list"

type_synonym 'w reader = "'w \<Rightarrow> ustring \<Rightarrow> (ExifToolError + ExifData) \<times> 'w"
type_synonym 'w prompter = "'w \<Rightarrow> ustring \<Rightarrow> ExifData \<Rightarrow> PhotoMeta \<Rightarrow> decision \<times> 'w"
type_synonym 'w runner = "'w \<Rightarrow> ustring list \<Rightarrow> (ExifToolError + unit) \<times> 'w"

text \<open>
  The local state of the loop of \<^verbatim>\<open>run_migration\<close>: the three entries of the
  \<^verbatim>\<open>stats\<close> dictionary and \<^verbatim>\<open>skip_all_conflicts\<close>, with the world and the log.
\<close>

record 'w session =
  processed :: nat
  skipped :: nat
  errors :: nat
  skip_all_conflicts :: bool
  world :: 'w
  calls :: "event list"

definition count_processed :: "'w session \<Rightarrow> 'w session" where
  "count_processed s = s\<lparr>processed := processed s + 1\<rparr>"

definition count_skipped :: "'w session \<Rightarrow> 'w session" where
  "count_skipped s = s\<lparr>skipped := skipped s + 1\<rparr>"

definition count_error :: "'w session \<Rightarrow> 'w session" where
  "count_error s = s\<lparr>errors := errors s + 1\<rparr>"

definition invoked :: "event \<Rightarrow> 'w \<Rightarrow> 'w session \<Rightarrow> 'w session" where
  "invoked e w s = s\<lparr>world := w, calls := calls s @ [e]\<rparr>"

subsection \<open>Building the write command\<close>

text \<open>
  Python's \<^verbatim>\<open>f"{rating}"\<close> for an \<^verbatim>\<open>int\<close>: decimal digits (the digit \<open>d\<close> is the
  character \<open>48 + d\<close>), a minus sign when negative.
\<close>

fun str_of_nat :: "nat \<Rightarrow> ustring" where
  "str_of_nat n =
     (if n < 10 then [48 + n]
      else str_of_nat (n div 10) @ [48 + n mod 10])"

declare str_of_nat.simps [simp del]

definition str_of_int :: "int \<Rightarrow> ustring" where
  "str_of_int i = (if i < 0 then u ''-'' @ str_of_nat (nat (- i)) else str_of_nat (nat i))"

text \<open>
  \<^verbatim>\<open>
  def build_write_cmd_args(file_path, rating, description, overwrite_original):
      updates = []
      if rating is not None:
          updates.append(f"-Rating={rating}")
      if description is not None:
          updates.extend([f"-ImageDescription={description}", f"-Description={description}"])
      if not updates:
          return None
      cmd = []
      if overwrite_original:
          cmd.append("-overwrite_original")
      cmd.extend(updates)
      cmd.append(file_path)
      return cmd
  \<close>
\<close>

definition build_write_cmd_args ::
  "ustring \<Rightarrow> int option \<Rightarrow> ustring option \<Rightarrow> bool \<Rightarrow> ustring list option" where
  "build_write_cmd_args file_path rating_arg description_arg overwrite =
     (let updates =
            (case rating_arg of None \<Rightarrow> [] | Some r \<Rightarrow> [u ''-Rating='' @ str_of_int r]) @
            (case description_arg of
               None \<Rightarrow> []
             | Some d \<Rightarrow> [u ''-ImageDescription='' @ d, u ''-Description='' @ d])
      in if updates = [] then None
         else Some ((if overwrite then [u ''-overwrite_original''] else []) @ updates @ [file_path]))"

text \<open>
  \<^verbatim>\<open>
  def write_exif_data(file_path, rating, description, overwrite_original, logger):
      if rating is None and description is None:
          return True
      cmd_args = build_write_cmd_args(file_path, rating, description, overwrite_original)
      if not cmd_args:
          return True
      run_exiftool(cmd_args, logger, purpose="write")
      return True
  \<close>
  The result is \<open>Inr True\<close>, or \<open>Inl\<close> the \<^verbatim>\<open>ExifToolError\<close> that \<^verbatim>\<open>run_exiftool\<close>
  raised; the session carries the changed world and the logged invocation.
\<close>

definition write_exif_data ::
  "'w runner \<Rightarrow> ustring \<Rightarrow> int option \<Rightarrow> ustring option \<Rightarrow> bool \<Rightarrow> 'w session
     \<Rightarrow> (ExifToolError + bool) \<times> 'w session" where
  "write_exif_data run_exiftool file_path rating_arg description_arg overwrite s =
     (if rating_arg = None \<and> description_arg = None then (Inr True, s)
      else (case build_write_cmd_args file_path rating_arg description_arg overwrite of
              None \<Rightarrow> (Inr True, s)
            | Some cmd_args \<Rightarrow>
                if cmd_args = [] then (Inr True, s)
                else (case run_exiftool (world s) cmd_args of
                        (Inl err, w) \<Rightarrow> (Inl err, invoked (WriteCall cmd_args) w s)
                      | (Inr fin, w) \<Rightarrow> (Inr True, invoked (WriteCall cmd_args) w s))))"

subsection \<open>The conflict-resolving merger\<close>

text \<open>
  The two needs of \<^verbatim>\<open>run_migration\<close>:
  \<^verbatim>\<open>
  needs_rating = meta.favorite and (existing.rating is None or existing.rating < 4)
  needs_description = bool(meta.description) and meta.description != (existing.description or "")
  \<close>
\<close>

definition needs_rating :: "PhotoMeta \<Rightarrow> ExifData \<Rightarrow> bool" where
  "needs_rating m existing =
     (favorite m \<and> (case rating existing of None \<Rightarrow> True | Some r \<Rightarrow> r < 4))"

definition needs_description :: "PhotoMeta \<Rightarrow> ExifData \<Rightarrow> bool" where
  "needs_description m existing =
     (description m \<noteq> [] \<and>
      description m \<noteq> (case exif_description existing of None \<Rightarrow> [] | Some d \<Rightarrow> d))"

text \<open>
  \<^verbatim>\<open>
  def evaluate_conflict(existing, needs_rating, needs_description):
      rating_conflict = needs_rating and existing.rating is not None and existing.rating != 4
      description_conflict = needs_description and bool(existing.description)
      return rating_conflict or description_conflict
  \<close>
\<close>

definition evaluate_conflict :: "ExifData \<Rightarrow> bool \<Rightarrow> bool \<Rightarrow> bool" where
  "evaluate_conflict existing nr nd =
     (let rating_conflict =
            (nr \<and> (case rating existing of None \<Rightarrow> False | Some r \<Rightarrow> r \<noteq> 4));
          description_conflict =
            (nd \<and> (case exif_description existing of None \<Rightarrow> False | Some d \<Rightarrow> d \<noteq> []))
      in rating_conflict \<or> description_conflict)"

text \<open>
  The end of the loop body, from \<^verbatim>\<open>action_rating = 4 if needs_rating else None\<close> on:
  the dry-run branch builds the command for the log only and counts the pair as
  processed; otherwise \<^verbatim>\<open>write_exif_data\<close> runs, an \<^verbatim>\<open>ExifToolError\<close> is turned into
  \<^verbatim>\<open>success = False\<close>, and the pair is counted as processed or as an error.
\<close>

definition apply_change ::
  "'w runner \<Rightarrow> Args \<Rightarrow> ustring \<Rightarrow> PhotoMeta \<Rightarrow> bool \<Rightarrow> bool \<Rightarrow> 'w session \<Rightarrow> 'w session" where
  "apply_change run_exiftool args path m nr nd s =
     (let action_rating = (if nr then Some 4 else None);
          action_description = (if nd then Some (description m) else None)
      in if dry_run args then count_processed s
         else (case write_exif_data run_exiftool path action_rating action_description
                      (overwrite_original args) s of
                 (Inl err, s') \<Rightarrow> count_error s'
               | (Inr success, s') \<Rightarrow>
                   if success then count_processed s' else count_error s'))"

text \<open>
  One iteration of \<^verbatim>\<open>for entry in matched\<close>. Each \<^verbatim>\<open>continue\<close> of the source is a
  branch that returns the session.
\<close>

definition process_entry ::
  "'w reader \<Rightarrow> 'w prompter \<Rightarrow> 'w runner \<Rightarrow> Args \<Rightarrow> 'w session \<Rightarrow> MatchedPhoto \<Rightarrow> 'w session" where
  "process_entry read_exif_data prompt_conflict run_exiftool args s entry =
     (let path = rel_path (file_record entry);
          m = meta entry;
          full = full_path (file_record entry)
      in if \<not> favorite m \<and> description m = [] then count_skipped s
         else (case read_exif_data (world s) full of
                 (Inl err, w1) \<Rightarrow> count_error (invoked (ReadCall full) w1 s)
               | (Inr existing, w1) \<Rightarrow>
                   (let s1 = invoked (ReadCall full) w1 s;
                        nr = needs_rating m existing;
                        nd = needs_description m existing
                    in if \<not> nr \<and> \<not> nd then count_skipped s1
                       else if evaluate_conflict existing nr nd then
                         (if skip_all_conflicts s1 then count_skipped s1
                          else (case prompt_conflict (world s1) path existing m of
                                  (Skip, w2) \<Rightarrow>
                                    count_skipped (invoked (PromptCall path Skip) w2 s1)
                                | (SkipAll, w2) \<Rightarrow>
                                    count_skipped
                                      ((invoked (PromptCall path SkipAll) w2 s1)
                                         \<lparr>skip_all_conflicts := True\<rparr>)
                                | (Overwrite, w2) \<Rightarrow>
                                    apply_change run_exiftool args full m nr nd
                                      (invoked (PromptCall path Overwrite) w2 s1)))
                       else apply_change run_exiftool args full m nr nd s1)))"

text \<open>
  \<^verbatim>\<open>run_migration\<close>: the session starts with three zero counters and
  \<^verbatim>\<open>skip_all_conflicts = False\<close>, and the loop body runs once per entry, in order.
  \<open>migrate\<close> is the loop from any session; \<open>run_migration\<close> returns the final session,
  whose three counters are the \<^verbatim>\<open>stats\<close> the source returns.
\<close>

definition initial_session :: "'w \<Rightarrow> 'w session" where
  "initial_session w =
     \<lparr>processed = 0, skipped = 0, errors = 0, skip_all_conflicts = False,
      world = w, calls = []\<rparr>"

fun migrate ::
  "'w reader \<Rightarrow> 'w prompter \<Rightarrow> 'w runner \<Rightarrow> Args \<Rightarrow> 'w session \<Rightarrow> MatchedPhoto list \<Rightarrow> 'w session" where
  "migrate rd pr ru args s [] = s"
| "migrate rd pr ru args s (entry # rest) =
     migrate rd pr ru args (process_entry rd pr ru args s entry) rest"

definition run_migration ::
  "'w reader \<Rightarrow> 'w prompter \<Rightarrow> 'w runner \<Rightarrow> Args \<Rightarrow> 'w \<Rightarrow> MatchedPhoto list \<Rightarrow> 'w session" where
  "run_migration rd pr ru args w matched = migrate rd pr ru args (initial_session w) matched"

subsection \<open>The query, as syntax\<close>

text \<open>
  \<^verbatim>\<open>build_metadata_query\<close> prints an SQL text for SQLite to run. The model builds the
  syntax tree of that text instead, piece by piece as the source prints it, and gives the
  tree the meaning SQLite gives the text. A description expression is a column, a string
  literal, \<^verbatim>\<open>NULLIF(a, b)\<close> or \<^verbatim>\<open>COALESCE(...)\<close>; a condition is \<^verbatim>\<open>table.column = n\<close>,
  \<^verbatim>\<open>a != b\<close>, \<^verbatim>\<open>AND\<close> or \<^verbatim>\<open>OR\<close>; a join is
  \<^verbatim>\<open>LEFT JOIN join_table ON on_left = on_right\<close>, each side a table and a column.
\<close>

datatype text_expr =
  Col ustring ustring
| Lit ustring
| Nullif text_expr text_expr
| Coalesce "text_expr list"

datatype cond =
  IntEq ustring ustring int
| TextNe text_expr text_expr
| And cond cond
| Or cond cond

record left_join =
  join_table :: ustring
  on_left :: "ustring \<times> ustring"
  on_right :: "ustring \<times> ustring"

text \<open>
  The query: \<^verbatim>\<open>SELECT ZASSET.ZFILENAME, ZASSET.ZDIRECTORY, ZASSET.ZFAVORITE,
  {description_expr} AS DESCRIPTION FROM ZASSET {joins} WHERE {where_cond}\<close>.
\<close>

record query =
  description_expr :: text_expr
  joins :: "left_join list"
  where_cond :: cond

subsection \<open>The schema resolver\<close>

text \<open>
  \<^verbatim>\<open>fetch_table_names\<close> returns a dictionary from table name to column names; it is a
  map here. \<^verbatim>\<open>tables.get(name, [])\<close> is \<open>columns_of\<close>.
\<close>

type_synonym tables = "ustring \<rightharpoonup> ustring list"

definition columns_of :: "tables \<Rightarrow> ustring \<Rightarrow> ustring list" where
  "columns_of tbls name = (case tbls name of None \<Rightarrow> [] | Some cols \<Rightarrow> cols)"

definition ZASSET :: ustring where
  "ZASSET = u ''ZASSET''"

definition ZADDITIONALASSETATTRIBUTES :: ustring where
  "ZADDITIONALASSETATTRIBUTES = u ''ZADDITIONALASSETATTRIBUTES''"

definition ZASSETDESCRIPTION :: ustring where
  "ZASSETDESCRIPTION = u ''ZASSETDESCRIPTION''"

definition ZEXTENDEDATTRIBUTES :: ustring where
  "ZEXTENDEDATTRIBUTES = u ''ZEXTENDEDATTRIBUTES''"

text \<open>
  The join clauses of \<^verbatim>\<open>build_metadata_query\<close>, in the order the source appends them:
  \<^verbatim>\<open>
  zasset_cols = tables.get("ZASSET", [])
  is_ios18 = "ZADDITIONALATTRIBUTES" in zasset_cols
  if "ZADDITIONALASSETATTRIBUTES" in tables:
      if is_ios18:
          joins.append("LEFT JOIN ZADDITIONALASSETATTRIBUTES ON ZASSET.ZADDITIONALATTRIBUTES = ZADDITIONALASSETATTRIBUTES.Z_PK")
      else:
          joins.append("LEFT JOIN ZADDITIONALASSETATTRIBUTES ON ZASSET.Z_PK = ZADDITIONALASSETATTRIBUTES.ZASSET")
  if "ZASSETDESCRIPTION" in tables and "ZADDITIONALASSETATTRIBUTES" in tables:
      aaa_cols = tables.get("ZADDITIONALASSETATTRIBUTES", [])
      desc_cols = tables.get("ZASSETDESCRIPTION", [])
      if "ZASSETDESCRIPTION" in aaa_cols:
          joins.append("LEFT JOIN ZASSETDESCRIPTION ON ZADDITIONALASSETATTRIBUTES.ZASSETDESCRIPTION = ZASSETDESCRIPTION.Z_PK")
      elif "ZASSETATTRIBUTES" in desc_cols:
          joins.append("LEFT JOIN ZASSETDESCRIPTION ON ZASSETDESCRIPTION.ZASSETATTRIBUTES = ZADDITIONALASSETATTRIBUTES.Z_PK")
  if "ZEXTENDEDATTRIBUTES" in tables and "ZCAPTION" in tables["ZEXTENDEDATTRIBUTES"]:
      joins.append("LEFT JOIN ZEXTENDEDATTRIBUTES ON ZASSET.Z_PK = ZEXTENDEDATTRIBUTES.ZASSET")
  \<close>
\<close>

definition build_joins :: "tables \<Rightarrow> left_join list" where
  "build_joins tbls =
     (let is_ios18 = (u ''ZADDITIONALATTRIBUTES'' \<in> set (columns_of tbls ZASSET));
          j1 = (if tbls ZADDITIONALASSETATTRIBUTES \<noteq> None then
                  (if is_ios18 then
                     [\<lparr>join_table = ZADDITIONALASSETATTRIBUTES,
                       on_left = (ZASSET, u ''ZADDITIONALATTRIBUTES''),
                       on_right = (ZADDITIONALASSETATTRIBUTES, u ''Z_PK'')\<rparr>]
                   else
                     [\<lparr>join_table = ZADDITIONALASSETATTRIBUTES,
                       on_left = (ZASSET, u ''Z_PK''),
                       on_right = (ZADDITIONALASSETATTRIBUTES, u ''ZASSET'')\<rparr>])
                else []);
          j2 = (if tbls ZASSETDESCRIPTION \<noteq> None \<and> tbls ZADDITIONALASSETATTRIBUTES \<noteq> None then
                  (if u ''ZASSETDESCRIPTION'' \<in> set (columns_of tbls ZADDITIONALASSETATTRIBUTES) then
                     j1 @ [\<lparr>join_table = ZASSETDESCRIPTION,
                            on_left = (ZADDITIONALASSETATTRIBUTES, u ''ZASSETDESCRIPTION''),
                            on_right = (ZASSETDESCRIPTION, u ''Z_PK'')\<rparr>]
                   else if u ''ZASSETATTRIBUTES'' \<in> set (columns_of tbls ZASSETDESCRIPTION) then
                     j1 @ [\<lparr>join_table = ZASSETDESCRIPTION,
                            on_left = (ZASSETDESCRIPTION, u ''ZASSETATTRIBUTES''),
                            on_right = (ZADDITIONALASSETATTRIBUTES, u ''Z_PK'')\<rparr>]
                   else j1)
                else j1);
          j3 = (if tbls ZEXTENDEDATTRIBUTES \<noteq> None
                   \<and> u ''ZCAPTION'' \<in> set (columns_of tbls ZEXTENDEDATTRIBUTES) then
                  j2 @ [\<lparr>join_table = ZEXTENDEDATTRIBUTES,
                         on_left = (ZASSET, u ''Z_PK''),
                         on_right = (ZEXTENDEDATTRIBUTES, u ''ZASSET'')\<rparr>]
                else j2)
      in j3)"

text \<open>
  The description clauses, each \<^verbatim>\<open>NULLIF(table.column, '')\<close>:
  \<^verbatim>\<open>
  if "ZADDITIONALASSETATTRIBUTES" in tables:
      ...
      if "ZTITLE" in tables["ZADDITIONALASSETATTRIBUTES"]:
          desc_clauses.append("NULLIF(ZADDITIONALASSETATTRIBUTES.ZTITLE, '')")
  if "ZASSETDESCRIPTION" in tables and "ZADDITIONALASSETATTRIBUTES" in tables:
      ...
      if "ZLONGDESCRIPTION" in tables["ZASSETDESCRIPTION"]:
          desc_clauses.insert(0, "NULLIF(ZASSETDESCRIPTION.ZLONGDESCRIPTION, '')")
  if "ZEXTENDEDATTRIBUTES" in tables and "ZCAPTION" in tables["ZEXTENDEDATTRIBUTES"]:
      ...
      desc_clauses.append("NULLIF(ZEXTENDEDATTRIBUTES.ZCAPTION, '')")
  \<close>
  The long description clause is added whether or not one of the two joins of
  \<^verbatim>\<open>ZASSETDESCRIPTION\<close> was.
\<close>

definition title_clause :: text_expr where
  "title_clause = Nullif (Col ZADDITIONALASSETATTRIBUTES (u ''ZTITLE'')) (Lit [])"

definition long_description_clause :: text_expr where
  "long_description_clause = Nullif (Col ZASSETDESCRIPTION (u ''ZLONGDESCRIPTION'')) (Lit [])"

definition caption_clause :: text_expr where
  "caption_clause = Nullif (Col ZEXTENDEDATTRIBUTES (u ''ZCAPTION'')) (Lit [])"

definition build_desc_clauses :: "tables \<Rightarrow> text_expr list" where
  "build_desc_clauses tbls =
     (let d1 = (if tbls ZADDITIONALASSETATTRIBUTES \<noteq> None
                   \<and> u ''ZTITLE'' \<in> set (columns_of tbls ZADDITIONALASSETATTRIBUTES) then
                  [title_clause]
                else []);
          d2 = (if tbls ZASSETDESCRIPTION \<noteq> None \<and> tbls ZADDITIONALASSETATTRIBUTES \<noteq> None
                   \<and> u ''ZLONGDESCRIPTION'' \<in> set (columns_of tbls ZASSETDESCRIPTION) then
                  long_description_clause # d1
                else d1);
          d3 = (if tbls ZEXTENDEDATTRIBUTES \<noteq> None
                   \<and> u ''ZCAPTION'' \<in> set (columns_of tbls ZEXTENDEDATTRIBUTES) then
                  d2 @ [caption_clause]
                else d2)
      in d3)"

text \<open>
  \<^verbatim>\<open>
  if desc_clauses:
      desc_expr = f"COALESCE({', '.join(desc_clauses)}, '')"
  else:
      desc_expr = "''"
  \<close>
\<close>

definition desc_expr :: "text_expr list \<Rightarrow> text_expr" where
  "desc_expr desc_clauses =
     (if desc_clauses \<noteq> [] then Coalesce (desc_clauses @ [Lit []]) else Lit [])"

text \<open>
  The query text, with its condition
  \<^verbatim>\<open>ZASSET.ZTRASHEDSTATE = 0 AND (ZASSET.ZFAVORITE = 1 OR {desc_expr} != '')\<close>.
  The source returns the text together with \<^verbatim>\<open>desc_expr\<close>, which it only logs; here
  \<open>description_expr\<close> of the query is that expression.
\<close>

definition build_metadata_query :: "tables \<Rightarrow> query" where
  "build_metadata_query tbls =
     (let de = desc_expr (build_desc_clauses tbls)
      in \<lparr>description_expr = de,
          joins = build_joins tbls,
          where_cond =
            And (IntEq ZASSET (u ''ZTRASHEDSTATE'') 0)
                (Or (IntEq ZASSET (u ''ZFAVORITE'') 1) (TextNe de (Lit [])))\<rparr>)"

subsection \<open>What the query means\<close>

text \<open>
  SQLite first resolves every column the text names: the table must be \<^verbatim>\<open>ZASSET\<close> or a
  joined table, and the column must be a column of that table; otherwise preparing the
  statement raises (\<^verbatim>\<open>no such column\<close>) and no row is read.
\<close>

fun expr_refs :: "text_expr \<Rightarrow> (ustring \<times> ustring) list" where
  "expr_refs (Col t c) = [(t, c)]"
| "expr_refs (Lit s) = []"
| "expr_refs (Nullif a b) = expr_refs a @ expr_refs b"
| "expr_refs (Coalesce es) = concat (map expr_refs es)"

fun cond_refs :: "cond \<Rightarrow> (ustring \<times> ustring) list" where
  "cond_refs (IntEq t c n) = [(t, c)]"
| "cond_refs (TextNe a b) = expr_refs a @ expr_refs b"
| "cond_refs (And a b) = cond_refs a @ cond_refs b"
| "cond_refs (Or a b) = cond_refs a @ cond_refs b"

definition query_refs :: "query \<Rightarrow> (ustring \<times> ustring) list" where
  "query_refs q =
     [(ZASSET, u ''ZFILENAME''), (ZASSET, u ''ZDIRECTORY''), (ZASSET, u ''ZFAVORITE'')]
     @ expr_refs (description_expr q)
     @ concat (map (\<lambda>j. [on_left j, on_right j]) (joins q))
     @ cond_refs (where_cond q)"

definition from_tables :: "query \<Rightarrow> ustring list" where
  "from_tables q = ZASSET # map join_table (joins q)"

definition query_resolves :: "tables \<Rightarrow> query \<Rightarrow> bool" where
  "query_resolves tbls q =
     list_all (\<lambda>(t, c). t \<in> set (from_tables q) \<and> c \<in> set (columns_of tbls t)) (query_refs q)"

text \<open>
  The engine evaluates \<^verbatim>\<open>FROM ZASSET {joins}\<close>; a row of that relation is a
  \<open>joined_row\<close>: the four columns of \<^verbatim>\<open>ZASSET\<close> that the query reads and the three
  description columns that the left joins bring, each \<open>None\<close> for SQL's \<^verbatim>\<open>NULL\<close> (as
  where a left join found no partner). The columns hold what the schema declares: text in
  the text columns, integers in the two flags.
\<close>

record joined_row =
  ZASSET_ZFILENAME :: "ustring option"
  ZASSET_ZDIRECTORY :: "ustring option"
  ZASSET_ZFAVORITE :: "int option"
  ZASSET_ZTRASHEDSTATE :: "int option"
  ZASSETDESCRIPTION_ZLONGDESCRIPTION :: "ustring option"
  ZADDITIONALASSETATTRIBUTES_ZTITLE :: "ustring option"
  ZEXTENDEDATTRIBUTES_ZCAPTION :: "ustring option"

definition text_column :: "joined_row \<Rightarrow> ustring \<Rightarrow> ustring \<Rightarrow> ustring option" where
  "text_column r t c =
     (if (t, c) = (ZASSET, u ''ZFILENAME'') then ZASSET_ZFILENAME r
      else if (t, c) = (ZASSET, u ''ZDIRECTORY'') then ZASSET_ZDIRECTORY r
      else if (t, c) = (ZASSETDESCRIPTION, u ''ZLONGDESCRIPTION'') then
        ZASSETDESCRIPTION_ZLONGDESCRIPTION r
      else if (t, c) = (ZADDITIONALASSETATTRIBUTES, u ''ZTITLE'') then
        ZADDITIONALASSETATTRIBUTES_ZTITLE r
      else if (t, c) = (ZEXTENDEDATTRIBUTES, u ''ZCAPTION'') then ZEXTENDEDATTRIBUTES_ZCAPTION r
      else None)"

definition int_column :: "joined_row \<Rightarrow> ustring \<Rightarrow> ustring \<Rightarrow> int option" where
  "int_column r t c =
     (if (t, c) = (ZASSET, u ''ZFAVORITE'') then ZASSET_ZFAVORITE r
      else if (t, c) = (ZASSET, u ''ZTRASHEDSTATE'') then ZASSET_ZTRASHEDSTATE r
      else None)"

text \<open>
  \<^verbatim>\<open>COALESCE\<close> is its first argument that is not \<^verbatim>\<open>NULL\<close>; \<^verbatim>\<open>NULLIF(a, b)\<close> is \<^verbatim>\<open>NULL\<close>
  when \<^verbatim>\<open>a = b\<close> and \<^verbatim>\<open>a\<close> otherwise.
\<close>

fun coalesce :: "'a option list \<Rightarrow> 'a option" where
  "coalesce [] = None"
| "coalesce (None # vs) = coalesce vs"
| "coalesce (Some v # vs) = Some v"

fun eval_text :: "joined_row \<Rightarrow> text_expr \<Rightarrow> ustring option" where
  "eval_text r (Col t c) = text_column r t c"
| "eval_text r (Lit s) = Some s"
| "eval_text r (Nullif a b) =
     (case eval_text r a of
        None \<Rightarrow> None
      | Some x \<Rightarrow> if eval_text r b = Some x then None else Some x)"
| "eval_text r (Coalesce es) = coalesce (map (eval_text r) es)"

text \<open>
  A condition is true, false or \<^verbatim>\<open>NULL\<close> (\<open>None\<close>): a comparison with \<^verbatim>\<open>NULL\<close> is
  \<^verbatim>\<open>NULL\<close>; \<^verbatim>\<open>AND\<close> is false when one side is false and \<^verbatim>\<open>OR\<close> is true when one side
  is true, whatever the other side. \<^verbatim>\<open>WHERE\<close> keeps the rows on which the condition is
  true.
\<close>

definition sql_and :: "bool option \<Rightarrow> bool option \<Rightarrow> bool option" where
  "sql_and a b =
     (if a = Some False \<or> b = Some False then Some False
      else if a = Some True \<and> b = Some True then Some True
      else None)"

definition sql_or :: "bool option \<Rightarrow> bool option \<Rightarrow> bool option" where
  "sql_or a b =
     (if a = Some True \<or> b = Some True then Some True
      else if a = Some False \<and> b = Some False then Some False
      else None)"

fun eval_cond :: "joined_row \<Rightarrow> cond \<Rightarrow> bool option" where
  "eval_cond r (IntEq t c n) = map_option (\<lambda>v. v = n) (int_column r t c)"
| "eval_cond r (TextNe a b) =
     (case (eval_text r a, eval_text r b) of
        (Some x, Some y) \<Rightarrow> Some (x \<noteq> y)
      | _ \<Rightarrow> None)"
| "eval_cond r (And a b) = sql_and (eval_cond r a) (eval_cond r b)"
| "eval_cond r (Or a b) = sql_or (eval_cond r a) (eval_cond r b)"

text \<open>A row of the result, read by the source as \<^verbatim>\<open>row["ZFILENAME"]\<close> and so on.\<close>

record result_row =
  ZFILENAME :: "ustring option"
  ZDIRECTORY :: "ustring option"
  ZFAVORITE :: "int option"
  DESCRIPTION :: "ustring option"

definition select_row :: "query \<Rightarrow> joined_row \<Rightarrow> result_row" where
  "select_row q r =
     \<lparr>ZFILENAME = text_column r ZASSET (u ''ZFILENAME''),
      ZDIRECTORY = text_column r ZASSET (u ''ZDIRECTORY''),
      ZFAVORITE = int_column r ZASSET (u ''ZFAVORITE''),
      DESCRIPTION = eval_text r (description_expr q)\<rparr>"

definition run_query :: "query \<Rightarrow> joined_row list \<Rightarrow> result_row list" where
  "run_query q rel =
     map (select_row q) (filter (\<lambda>r. eval_cond r (where_cond q) = Some True) rel)"

subsection \<open>The metadata extractor\<close>

text \<open>
  Whatever the engine raises is a \<^verbatim>\<open>sqlite3.Error\<close>. A database answers three things:
  the table names that \<^verbatim>\<open>validate_database\<close> asks for, the table and column names that
  \<^verbatim>\<open>fetch_table_names\<close> asks for, and the rows of \<^verbatim>\<open>FROM ZASSET {joins}\<close>; each answer is
  an error (a locked or corrupt store) or a value.
\<close>

datatype sqlite_error = SqliteError ustring

record database =
  file_exists :: bool
  master_tables :: "sqlite_error + ustring list"
  table_info :: "sqlite_error + tables"
  from_clause :: "left_join list \<Rightarrow> sqlite_error + joined_row list"

text \<open>
  \<^verbatim>\<open>cursor.execute(query); rows = cursor.fetchall()\<close>: the statement is prepared, which
  fails when a name does not resolve, and then run.
\<close>

definition execute_query :: "database \<Rightarrow> tables \<Rightarrow> query \<Rightarrow> sqlite_error + result_row list" where
  "execute_query db tbls q =
     (if \<not> query_resolves tbls q then Inl (SqliteError (u ''no such column''))
      else (case from_clause db (joins q) of
              Inl exc \<Rightarrow> Inl exc
            | Inr rel \<Rightarrow> Inr (run_query q rel)))"

text \<open>\<^verbatim>\<open>x or ""\<close> for a column that may be \<^verbatim>\<open>None\<close>.\<close>

definition or_empty :: "ustring option \<Rightarrow> ustring" where
  "or_empty v = (case v of None \<Rightarrow> [] | Some x \<Rightarrow> x)"

text \<open>
  The key and the record that the loop of \<^verbatim>\<open>read_database_metadata\<close> makes of one row:
  \<^verbatim>\<open>
  filename_db = row["ZFILENAME"] or ""
  directory = row["ZDIRECTORY"] or ""
  favorite = bool(row["ZFAVORITE"])
  description = (row["DESCRIPTION"] or "").strip()
  full_relative = build_relative_path(directory, filename_db)
  truncated = truncate_to_apple_path(full_relative)
  normalized = normalize_rel_path(truncated)
  ... PhotoMeta(truncated, favorite, description)
  \<close>
\<close>

definition row_truncated :: "py_str \<Rightarrow> result_row \<Rightarrow> ustring" where
  "row_truncated py row =
     truncate_to_apple_path py
       (build_relative_path (or_empty (ZDIRECTORY row)) (or_empty (ZFILENAME row)))"

definition row_key :: "py_str \<Rightarrow> result_row \<Rightarrow> ustring" where
  "row_key py row = normalize_rel_path py (row_truncated py row)"

definition row_meta :: "py_str \<Rightarrow> result_row \<Rightarrow> PhotoMeta" where
  "row_meta py row =
     \<lparr>relative_path = row_truncated py row,
      favorite = (case ZFAVORITE row of None \<Rightarrow> False | Some n \<Rightarrow> n \<noteq> 0),
      description = str_strip py (or_empty (DESCRIPTION row))\<rparr>"

text \<open>
  The dictionary \<^verbatim>\<open>metadata\<close> is an association list in insertion order (the order
  \<^verbatim>\<open>match_metadata\<close> later iterates in); a key already present is skipped.
\<close>

fun collect_rows ::
  "py_str \<Rightarrow> (ustring \<times> PhotoMeta) list \<Rightarrow> result_row list \<Rightarrow> (ustring \<times> PhotoMeta) list" where
  "collect_rows py metadata [] = metadata"
| "collect_rows py metadata (row # rows) =
     (if map_of metadata (row_key py row) \<noteq> None then collect_rows py metadata rows
      else collect_rows py (metadata @ [(row_key py row, row_meta py row)]) rows)"

text \<open>
  \<^verbatim>\<open>read_database_metadata\<close>: any \<^verbatim>\<open>sqlite3.Error\<close> inside the \<^verbatim>\<open>try\<close> block is logged
  and the function returns the empty dictionary.
\<close>

definition read_database_metadata :: "py_str \<Rightarrow> database \<Rightarrow> (ustring \<times> PhotoMeta) list" where
  "read_database_metadata py db =
     (case table_info db of
        Inl exc \<Rightarrow> []
      | Inr tbls \<Rightarrow>
          (case execute_query db tbls (build_metadata_query tbls) of
             Inl exc \<Rightarrow> []
           | Inr rows \<Rightarrow> collect_rows py [] rows))"

subsection \<open>The file scanner\<close>

definition SUPPORTED_EXTENSIONS :: "ustring list" where
  "SUPPORTED_EXTENSIONS = [u ''.jpg'', u ''.jpeg'', u ''.heic'', u ''.png'']"

text \<open>
  \<^verbatim>\<open>Path(file_name).suffix\<close> for a plain file name: the text from the last dot on, when
  that dot is neither the first nor the last character; empty otherwise.
\<close>

definition rfind :: "nat \<Rightarrow> ustring \<Rightarrow> nat option" where
  "rfind c s =
     (case filter (\<lambda>i. s ! i = c) (rev [0..<length s]) of
        [] \<Rightarrow> None
      | i # _ \<Rightarrow> Some i)"

definition path_suffix :: "ustring \<Rightarrow> ustring" where
  "path_suffix name =
     (case rfind dot name of
        None \<Rightarrow> []
      | Some i \<Rightarrow> if 0 < i \<and> i + 1 < length name then drop i name else [])"

text \<open>
  \<^verbatim>\<open>os.walk(base_path)\<close> is given as the list of directories it visits, each with its
  path below the scan root as segments (\<^verbatim>\<open>root_path.relative_to(base_path).parts\<close>) and
  its file names. The inner loop of \<^verbatim>\<open>scan_photo_files\<close>:
  \<^verbatim>\<open>
  for file_name in files:
      ext = Path(file_name).suffix.lower()
      if ext not in SUPPORTED_EXTENSIONS:
          continue
      rel_path = (root_path / file_name).relative_to(base_path).as_posix()
      normalized = normalize_rel_path(rel_path)
      if normalized in photo_files:
          continue
      photo_files[normalized] = FileRecord(rel_path, str(root_path / file_name))
  \<close>
\<close>

fun scan_files ::
  "py_str \<Rightarrow> ustring \<Rightarrow> ustring list \<Rightarrow> (ustring \<times> FileRecord) list \<Rightarrow> ustring list
     \<Rightarrow> (ustring \<times> FileRecord) list" where
  "scan_files py photo_dir path_parts photo_files [] = photo_files"
| "scan_files py photo_dir path_parts photo_files (file_name # files) =
     (if str_lower py (path_suffix file_name) \<notin> set SUPPORTED_EXTENSIONS then
        scan_files py photo_dir path_parts photo_files files
      else
        (let rp = join [slash] (path_parts @ [file_name]);
             normalized = normalize_rel_path py rp
         in if map_of photo_files normalized \<noteq> None then
              scan_files py photo_dir path_parts photo_files files
            else
              scan_files py photo_dir path_parts
                (photo_files @
                   [(normalized, \<lparr>rel_path = rp, full_path = as_posix (path_join photo_dir rp)\<rparr>)])
                files))"

text \<open>
  The outer loop: a directory is scanned only when one of its segments below the scan
  root is a collection folder.
\<close>

fun scan_dirs ::
  "py_str \<Rightarrow> ustring \<Rightarrow> (ustring \<times> FileRecord) list \<Rightarrow> (ustring list \<times> ustring list) list
     \<Rightarrow> (ustring \<times> FileRecord) list" where
  "scan_dirs py photo_dir photo_files [] = photo_files"
| "scan_dirs py photo_dir photo_files ((path_parts, files) # dirs) =
     (if list_ex (is_apple_dir py) path_parts then
        scan_dirs py photo_dir (scan_files py photo_dir path_parts photo_files files) dirs
      else scan_dirs py photo_dir photo_files dirs)"

text \<open>\<open>None\<close> for the walk is a scan root that does not exist.\<close>

definition scan_photo_files ::
  "py_str \<Rightarrow> ustring \<Rightarrow> (ustring list \<times> ustring list) list option
     \<Rightarrow> (ustring \<times> FileRecord) list" where
  "scan_photo_files py photo_dir walk =
     (case walk of
        None \<Rightarrow> []
      | Some dirs \<Rightarrow> scan_dirs py photo_dir [] dirs)"

subsection \<open>The matcher\<close>

text \<open>
  \<^verbatim>\<open>
  for key, meta in metadata.items():
      file_record = photo_files.get(key)
      if not file_record:
          missing_files += 1
          continue
      matched.append(MatchedPhoto(file_record, meta))
  \<close>
\<close>

fun match_metadata ::
  "(ustring \<times> PhotoMeta) list \<Rightarrow> (ustring \<times> FileRecord) list \<Rightarrow> MatchedPhoto list" where
  "match_metadata [] photo_files = []"
| "match_metadata ((key, m) # metadata) photo_files =
     (case map_of photo_files key of
        None \<Rightarrow> match_metadata metadata photo_files
      | Some fr \<Rightarrow> \<lparr>file_record = fr, meta = m\<rparr> # match_metadata metadata photo_files)"

subsection \<open>The run\<close>

definition EXIT_SUCCESS :: nat where "EXIT_SUCCESS = 0"
definition EXIT_GENERAL_ERROR :: nat where "EXIT_GENERAL_ERROR = 1"
definition EXIT_EXIFTOOL_MISSING :: nat where "EXIT_EXIFTOOL_MISSING = 2"
definition EXIT_INVALID_DB :: nat where "EXIT_INVALID_DB = 3"
definition EXIT_NO_PHOTOS :: nat where "EXIT_NO_PHOTOS = 4"

text \<open>
  \<^verbatim>\<open>validate_database\<close>: the file exists, the table names can be read, and \<^verbatim>\<open>ZASSET\<close>
  is one of them.
\<close>

definition validate_database :: "database \<Rightarrow> bool" where
  "validate_database db =
     (if \<not> file_exists db then False
      else (case master_tables db of
              Inl exc \<Rightarrow> False
            | Inr names \<Rightarrow> ZASSET \<in> set names))"

text \<open>
  \<^verbatim>\<open>main\<close>, after the arguments are parsed: the exit code, and the session of
  \<^verbatim>\<open>run_migration\<close> (the initial one when \<^verbatim>\<open>run_migration\<close> is never called).
  \<open>exiftool_found\<close> is whether \<^verbatim>\<open>check_dependencies\<close> returns.
\<close>

definition main ::
  "py_str \<Rightarrow> 'w reader \<Rightarrow> 'w prompter \<Rightarrow> 'w runner \<Rightarrow> Args \<Rightarrow> 'w \<Rightarrow> bool \<Rightarrow> database
     \<Rightarrow> ustring \<Rightarrow> (ustring list \<times> ustring list) list option \<Rightarrow> nat \<times> 'w session" where
  "main py rd pr ru args w exiftool_found db photo_dir walk =
     (if \<not> exiftool_found then (EXIT_EXIFTOOL_MISSING, initial_session w)
      else if \<not> validate_database db then (EXIT_INVALID_DB, initial_session w)
      else
        (let metadata = read_database_metadata py db;
             photo_files = scan_photo_files py photo_dir walk
         in if photo_files = [] then (EXIT_NO_PHOTOS, initial_session w)
            else
              (let matched = match_metadata metadata photo_files
               in if matched = [] then (EXIT_SUCCESS, initial_session w)
                  else
                    (let s = run_migration rd pr ru args w matched
                     in (if errors s = 0 then EXIT_SUCCESS else EXIT_GENERAL_ERROR, s)))))"

subsection \<open>Reading the log\<close>

text \<open>
  \<open>new_calls s s'\<close> is what was appended to the log between the sessions \<open>s\<close> and
  \<open>s'\<close>; \<open>is_write\<close> and \<open>is_prompt\<close> recognise a write invocation and a question to
  the console.
\<close>

definition is_write :: "event \<Rightarrow> bool" where
  "is_write e = (case e of WriteCall c \<Rightarrow> True | _ \<Rightarrow> False)"

definition is_prompt :: "event \<Rightarrow> bool" where
  "is_prompt e = (case e of PromptCall p d \<Rightarrow> True | _ \<Rightarrow> False)"

definition new_calls :: "'w session \<Rightarrow> 'w session \<Rightarrow> event list" where
  "new_calls s s' = drop (length (calls s)) (calls s')"

subsection \<open>A small library, for concrete runs\<close>

text \<open>
  Three files under \<^verbatim>\<open>/photos\<close>: one with no embedded metadata, one with an embedded
  rating of 2 and the description \<^verbatim>\<open>Old\<close>, one with the description \<^verbatim>\<open>Sunset\<close>;
  reading any other path fails. The console gives one fixed answer, and every write
  succeeds. The world is the unit type: nothing outside changes.
\<close>

definition example_reader :: "unit reader" where
  "example_reader w p =
     (if p = (u ''/photos/100APPLE/IMG_1.JPG'') then
        (Inr \<lparr>rating = None, exif_description = None\<rparr>, w)
      else if p = (u ''/photos/100APPLE/IMG_2.JPG'') then
        (Inr \<lparr>rating = Some 2, exif_description = Some (u ''Old'')\<rparr>, w)
      else if p = (u ''/photos/101APPLE/IMG_3.HEIC'') then
        (Inr \<lparr>rating = None, exif_description = Some (u ''Sunset'')\<rparr>, w)
      else (Inl (ExifToolError p), w))"

definition example_prompter :: "decision \<Rightarrow> unit prompter" where
  "example_prompter d w p existing m = (d, w)"

definition example_runner :: "unit runner" where
  "example_runner w cmd_args = (Inr (), w)"

definition pair_fresh :: MatchedPhoto where
  "pair_fresh =
     \<lparr>file_record = \<lparr>rel_path = u ''100APPLE/IMG_1.JPG'', full_path = u ''/photos/100APPLE/IMG_1.JPG''\<rparr>,
      meta = \<lparr>relative_path = u ''100APPLE/IMG_1.JPG'', favorite = True, description = []\<rparr>\<rparr>"

definition pair_conflict :: MatchedPhoto where
  "pair_conflict =
     \<lparr>file_record = \<lparr>rel_path = u ''100APPLE/IMG_2.JPG'', full_path = u ''/photos/100APPLE/IMG_2.JPG''\<rparr>,
      meta = \<lparr>relative_path = u ''100APPLE/IMG_2.JPG'', favorite = True, description = u ''Beach''\<rparr>\<rparr>"

definition pair_current :: MatchedPhoto where
  "pair_current =
     \<lparr>file_record = \<lparr>rel_path = u ''101APPLE/IMG_3.HEIC'', full_path = u ''/photos/101APPLE/IMG_3.HEIC''\<rparr>,
      meta = \<lparr>relative_path = u ''101APPLE/IMG_3.HEIC'', favorite = False, description = u ''Sunset''\<rparr>\<rparr>"

definition live_args :: Args where
  "live_args = \<lparr>dry_run = False, overwrite_original = False\<rparr>"

definition dry_args :: Args where
  "dry_args = \<lparr>dry_run = True, overwrite_original = False\<rparr>"

subsection \<open>The path normalizer as the specification words it\<close>

text \<open>
  Follows the spec's words (section 4.2, steps 2 and 3), to be compared with
  \<open>truncate_to_apple_path\<close> and \<open>normalize_rel_path\<close>: in the forward-slash path, the
  rightmost collection-folder segment is located and the path is cut in front of it; with
  no such segment the path is kept; the result is lower-cased.
\<close>

definition spec_truncate_rightmost :: "py_str \<Rightarrow> ustring \<Rightarrow> ustring" where
  "spec_truncate_rightmost py path_str =
     (let parts = split_on slash (replace_backslash path_str)
      in case filter (\<lambda>i. is_apple_dir py (parts ! i)) (rev [0..<length parts]) of
           [] \<Rightarrow> replace_backslash path_str
         | i # _ \<Rightarrow> join [slash] (drop i parts))"

definition spec_path_normalizer :: "py_str \<Rightarrow> ustring \<Rightarrow> ustring" where
  "spec_path_normalizer py path_str = str_lower py (spec_truncate_rightmost py path_str)"

subsection \<open>The resolved description as the specification words it\<close>

text \<open>
  Follows the spec's words (section 4.1): there are three description sources, the long
  description, the title and the legacy caption, in this order of precedence; of the
  values of the sources present, in that order, the first non-empty one is used; with
  none, the description is the empty string. A \<^verbatim>\<open>NULL\<close> is not a value. A source counts
  as present when the schema resolver detects it: its table has its column (and, for the
  long description, the attributes table exists too).
\<close>

datatype desc_source = LongDescription | Title | Caption

definition precedence :: "desc_source list" where
  "precedence = [LongDescription, Title, Caption]"

definition source_value :: "desc_source \<Rightarrow> joined_row \<Rightarrow> ustring option" where
  "source_value src r =
     (case src of
        LongDescription \<Rightarrow> ZASSETDESCRIPTION_ZLONGDESCRIPTION r
      | Title \<Rightarrow> ZADDITIONALASSETATTRIBUTES_ZTITLE r
      | Caption \<Rightarrow> ZEXTENDEDATTRIBUTES_ZCAPTION r)"

definition source_present :: "tables \<Rightarrow> desc_source \<Rightarrow> bool" where
  "source_present tbls src =
     (case src of
        LongDescription \<Rightarrow>
          tbls ZASSETDESCRIPTION \<noteq> None \<and> tbls ZADDITIONALASSETATTRIBUTES \<noteq> None
          \<and> u ''ZLONGDESCRIPTION'' \<in> set (columns_of tbls ZASSETDESCRIPTION)
      | Title \<Rightarrow>
          tbls ZADDITIONALASSETATTRIBUTES \<noteq> None
          \<and> u ''ZTITLE'' \<in> set (columns_of tbls ZADDITIONALASSETATTRIBUTES)
      | Caption \<Rightarrow>
          tbls ZEXTENDEDATTRIBUTES \<noteq> None
          \<and> u ''ZCAPTION'' \<in> set (columns_of tbls ZEXTENDEDATTRIBUTES))"

text \<open>The clause of the query that reads a source.\<close>

definition source_clause :: "desc_source \<Rightarrow> text_expr" where
  "source_clause src =
     (case src of
        LongDescription \<Rightarrow> long_description_clause
      | Title \<Rightarrow> title_clause
      | Caption \<Rightarrow> caption_clause)"

fun first_nonempty :: "ustring option list \<Rightarrow> ustring" where
  "first_nonempty [] = []"
| "first_nonempty (None # vs) = first_nonempty vs"
| "first_nonempty (Some v # vs) = (if v \<noteq> [] then v else first_nonempty vs)"

definition spec_resolved_description :: "tables \<Rightarrow> joined_row \<Rightarrow> ustring" where
  "spec_resolved_description tbls r =
     first_nonempty (map (\<lambda>src. source_value src r) (filter (source_present tbls) precedence))"

subsection \<open>A small store, for concrete runs\<close>

text \<open>
  A store of the older schema, with a title and a long description but no caption table,
  and four assets: a favorite, one with two descriptions, one with nothing to migrate,
  and a trashed favorite.
\<close>

definition example_tables :: tables where
  "example_tables =
     [ZASSET \<mapsto>
        [u ''Z_PK'', u ''ZFILENAME'', u ''ZDIRECTORY'', u ''ZFAVORITE'', u ''ZTRASHEDSTATE''],
      ZADDITIONALASSETATTRIBUTES \<mapsto> [u ''Z_PK'', u ''ZASSET'', u ''ZTITLE''],
      ZASSETDESCRIPTION \<mapsto> [u ''Z_PK'', u ''ZASSETATTRIBUTES'', u ''ZLONGDESCRIPTION'']]"

definition asset_row ::
  "ustring \<Rightarrow> ustring \<Rightarrow> int \<Rightarrow> int \<Rightarrow> ustring option \<Rightarrow> ustring option \<Rightarrow> joined_row" where
  "asset_row directory filename fav trashed long_description title =
     \<lparr>ZASSET_ZFILENAME = Some filename, ZASSET_ZDIRECTORY = Some directory,
      ZASSET_ZFAVORITE = Some fav, ZASSET_ZTRASHEDSTATE = Some trashed,
      ZASSETDESCRIPTION_ZLONGDESCRIPTION = long_description,
      ZADDITIONALASSETATTRIBUTES_ZTITLE = title,
      ZEXTENDEDATTRIBUTES_ZCAPTION = None\<rparr>"

definition example_rows :: "joined_row list" where
  "example_rows =
     [asset_row (u ''DCIM/100APPLE'') (u ''IMG_1.JPG'') 1 0 None None,
      asset_row (u ''DCIM/100APPLE'') (u ''IMG_2.JPG'') 0 0 (Some (u ''Beach day'')) (Some (u ''Beach'')),
      asset_row (u ''DCIM/101APPLE'') (u ''IMG_3.HEIC'') 0 0 None (Some []),
      asset_row (u ''DCIM/101APPLE'') (u ''IMG_4.JPG'') 1 1 None None]"

definition example_db :: database where
  "example_db =
     \<lparr>file_exists = True,
      master_tables = Inr [ZASSET, ZADDITIONALASSETATTRIBUTES, ZASSETDESCRIPTION],
      table_info = Inr example_tables,
      from_clause = (\<lambda>js. Inr example_rows)\<rparr>"

text \<open>
  A store in which the description table has its long description column but nothing
  ties it to the attributes table: \<^verbatim>\<open>ZADDITIONALASSETATTRIBUTES\<close> has no
  \<^verbatim>\<open>ZASSETDESCRIPTION\<close> column and \<^verbatim>\<open>ZASSETDESCRIPTION\<close> has no \<^verbatim>\<open>ZASSETATTRIBUTES\<close>
  column. Its one asset has the title \<^verbatim>\<open>Beach\<close>.
\<close>

definition unjoined_tables :: tables where
  "unjoined_tables =
     [ZASSET \<mapsto>
        [u ''Z_PK'', u ''ZFILENAME'', u ''ZDIRECTORY'', u ''ZFAVORITE'', u ''ZTRASHEDSTATE''],
      ZADDITIONALASSETATTRIBUTES \<mapsto> [u ''Z_PK'', u ''ZASSET'', u ''ZTITLE''],
      ZASSETDESCRIPTION \<mapsto> [u ''Z_PK'', u ''ZLONGDESCRIPTION'']]"

definition unjoined_row :: joined_row where
  "unjoined_row = asset_row (u ''DCIM/100APPLE'') (u ''IMG_2.JPG'') 0 0 None (Some (u ''Beach''))"

definition unjoined_db :: database where
  "unjoined_db =
     \<lparr>file_exists = True,
      master_tables = Inr [ZASSET, ZADDITIONALASSETATTRIBUTES, ZASSETDESCRIPTION],
      table_info = Inr unjoined_tables,
      from_clause = (\<lambda>js. Inr [unjoined_row])\<rparr>"

subsection \<open>Storage failures and scan trees, for concrete runs\<close>

text \<open>
  \<open>store_read_fails\<close>: a \<^verbatim>\<open>sqlite3.Error\<close> is raised inside the \<^verbatim>\<open>try\<close> block of
  \<^verbatim>\<open>read_database_metadata\<close>, while the table names are fetched or while the query is
  prepared and run.
\<close>

definition store_read_fails :: "database \<Rightarrow> bool" where
  "store_read_fails db =
     (case table_info db of
        Inl exc \<Rightarrow> True
      | Inr tbls \<Rightarrow>
          (case execute_query db tbls (build_metadata_query tbls) of
             Inl exc \<Rightarrow> True
           | Inr rows \<Rightarrow> False))"

text \<open>
  The small store with its query failing (a locked database), and with no asset at all.
\<close>

definition locked_db :: database where
  "locked_db = example_db\<lparr>from_clause := \<lambda>js. Inl (SqliteError (u ''database is locked''))\<rparr>"

definition empty_db :: database where
  "empty_db = example_db\<lparr>from_clause := \<lambda>js. Inr []\<rparr>"

text \<open>
  Two trees as \<^verbatim>\<open>os.walk\<close> reports them: the scan root holds \<^verbatim>\<open>100APPLE\<close> itself, or holds
  \<^verbatim>\<open>DCIM/100APPLE\<close>.
\<close>

definition example_walk :: "(ustring list \<times> ustring list) list" where
  "example_walk =
     [([], []), ([u ''100APPLE''], [u ''IMG_1.JPG'', u ''IMG_2.JPG'', u ''notes.txt''])]"

definition nested_walk :: "(ustring list \<times> ustring list) list" where
  "nested_walk =
     [([], []), ([u ''DCIM''], []),
      ([u ''DCIM'', u ''100APPLE''], [u ''IMG_1.JPG'', u ''IMG_2.JPG''])]"

section \<open>Properties of the merge loop\<close>

lemma invoked_simps [simp]:
  "processed (invoked e w s) = processed s"
  "skipped (invoked e w s) = skipped s"
  "errors (invoked e w s) = errors s"
  "skip_all_conflicts (invoked e w s) = skip_all_conflicts s"
  "world (invoked e w s) = w"
  "calls (invoked e w s) = calls s @ [e]"
  by (simp_all add: invoked_def)

lemma count_processed_simps [simp]:
  "processed (count_processed s) = processed s + 1"
  "skipped (count_processed s) = skipped s"
  "errors (count_processed s) = errors s"
  "skip_all_conflicts (count_processed s) = skip_all_conflicts s"
  "world (count_processed s) = world s"
  "calls (count_processed s) = calls s"
  by (simp_all add: count_processed_def)

lemma count_skipped_simps [simp]:
  "processed (count_skipped s) = processed s"
  "skipped (count_skipped s) = skipped s + 1"
  "errors (count_skipped s) = errors s"
  "skip_all_conflicts (count_skipped s) = skip_all_conflicts s"
  "world (count_skipped s) = world s"
  "calls (count_skipped s) = calls s"
  by (simp_all add: count_skipped_def)

lemma count_error_simps [simp]:
  "processed (count_error s) = processed s"
  "skipped (count_error s) = skipped s"
  "errors (count_error s) = errors s + 1"
  "skip_all_conflicts (count_error s) = skip_all_conflicts s"
  "world (count_error s) = world s"
  "calls (count_error s) = calls s"
  by (simp_all add: count_error_def)

text \<open>What write_exif_data leaves alone, and what it logs.\<close>

lemma write_exif_data_counters:
  "processed (snd (write_exif_data ru p r d ov s)) = processed s"
  "skipped (snd (write_exif_data ru p r d ov s)) = skipped s"
  "errors (snd (write_exif_data ru p r d ov s)) = errors s"
  "skip_all_conflicts (snd (write_exif_data ru p r d ov s)) = skip_all_conflicts s"
  by (simp_all add: write_exif_data_def split: option.split prod.split sum.split)

lemma write_exif_data_calls:
  "\<exists>ws. calls (snd (write_exif_data ru p r d ov s)) = calls s @ ws \<and> list_all is_write ws"
  by (simp add: write_exif_data_def is_write_def split: option.split prod.split sum.split)

lemma write_exif_data_result:
  "fst (write_exif_data ru p r d ov s) = Inr b \<Longrightarrow> b"
  by (simp add: write_exif_data_def split: option.split_asm prod.split_asm sum.split_asm if_split_asm)

lemma write_exif_data_eq:
  assumes "write_exif_data ru p r d ov s = (res, s1)"
  shows "processed s1 = processed s" and "skipped s1 = skipped s" and "errors s1 = errors s"
    and "skip_all_conflicts s1 = skip_all_conflicts s"
    and "\<exists>ws. calls s1 = calls s @ ws \<and> list_all is_write ws"
    and "res = Inr b \<Longrightarrow> b"
  using assms write_exif_data_counters [of ru p r d ov s] write_exif_data_calls [of ru p r d ov s]
    write_exif_data_result [of ru p r d ov s b]
  by simp_all

lemma apply_change_dry:
  "dry_run args \<Longrightarrow> apply_change ru args p m nr nd s = count_processed s"
  by (simp add: apply_change_def)

lemma apply_change_live:
  assumes "\<not> dry_run args"
    and "write_exif_data ru p (if nr then Some 4 else None)
           (if nd then Some (description m) else None) (overwrite_original args) s = (res, s1)"
  shows "apply_change ru args p m nr nd s =
           (case res of Inl e \<Rightarrow> count_error s1 | Inr b \<Rightarrow> count_processed s1)"
  using assms write_exif_data_eq(6) [OF assms(2)]
  by (auto simp add: apply_change_def Let_def split: sum.split)

lemma apply_change_counters:
  "skipped (apply_change ru args p m nr nd s) = skipped s"
  "skip_all_conflicts (apply_change ru args p m nr nd s) = skip_all_conflicts s"
  "(processed (apply_change ru args p m nr nd s) = processed s + 1
      \<and> errors (apply_change ru args p m nr nd s) = errors s)
   \<or> (processed (apply_change ru args p m nr nd s) = processed s
      \<and> errors (apply_change ru args p m nr nd s) = errors s + 1)"
proof -
  obtain res s1 where w:
    "write_exif_data ru p (if nr then Some 4 else None)
       (if nd then Some (description m) else None) (overwrite_original args) s = (res, s1)"
    by (cases "write_exif_data ru p (if nr then Some 4 else None)
       (if nd then Some (description m) else None) (overwrite_original args) s")
  note c = write_exif_data_eq(1-4) [OF w]
  show "skipped (apply_change ru args p m nr nd s) = skipped s"
    by (cases "dry_run args") (simp_all add: apply_change_dry apply_change_live [OF _ w] c split: sum.split)
  show "skip_all_conflicts (apply_change ru args p m nr nd s) = skip_all_conflicts s"
    by (cases "dry_run args") (simp_all add: apply_change_dry apply_change_live [OF _ w] c split: sum.split)
  show "(processed (apply_change ru args p m nr nd s) = processed s + 1
      \<and> errors (apply_change ru args p m nr nd s) = errors s)
   \<or> (processed (apply_change ru args p m nr nd s) = processed s
      \<and> errors (apply_change ru args p m nr nd s) = errors s + 1)"
    by (cases "dry_run args") (simp_all add: apply_change_dry apply_change_live [OF _ w] c split: sum.split)
qed

lemma apply_change_calls:
  "\<exists>ws. calls (apply_change ru args p m nr nd s) = calls s @ ws \<and> list_all is_write ws
        \<and> (dry_run args \<longrightarrow> ws = [])"
proof -
  obtain res s1 where w:
    "write_exif_data ru p (if nr then Some 4 else None)
       (if nd then Some (description m) else None) (overwrite_original args) s = (res, s1)"
    by (cases "write_exif_data ru p (if nr then Some 4 else None)
       (if nd then Some (description m) else None) (overwrite_original args) s")
  from write_exif_data_eq(5) [OF w] obtain ws where ws: "calls s1 = calls s @ ws" "list_all is_write ws"
    by blast
  show ?thesis
  proof (cases "dry_run args")
    case True
    then show ?thesis by (simp add: apply_change_dry)
  next
    case False
    then show ?thesis using ws
      by (simp add: apply_change_live [OF _ w] split: sum.split)
  qed
qed

text \<open>The branches of the loop body, one lemma each.\<close>

lemma process_entry_no_metadata:
  "\<not> favorite (meta e) \<Longrightarrow> description (meta e) = [] \<Longrightarrow>
   process_entry rd pr ru args s e = count_skipped s"
  by (simp add: process_entry_def)

lemma process_entry_read_error:
  "favorite (meta e) \<or> description (meta e) \<noteq> [] \<Longrightarrow>
   rd (world s) (full_path (file_record e)) = (Inl err, w1) \<Longrightarrow>
   process_entry rd pr ru args s e = count_error (invoked (ReadCall (full_path (file_record e))) w1 s)"
  by (auto simp add: process_entry_def)

lemma process_entry_up_to_date:
  "favorite (meta e) \<or> description (meta e) \<noteq> [] \<Longrightarrow>
   rd (world s) (full_path (file_record e)) = (Inr existing, w1) \<Longrightarrow>
   \<not> needs_rating (meta e) existing \<Longrightarrow> \<not> needs_description (meta e) existing \<Longrightarrow>
   process_entry rd pr ru args s e = count_skipped (invoked (ReadCall (full_path (file_record e))) w1 s)"
  by (auto simp add: process_entry_def)

lemma needs_imp_metadata:
  "needs_rating m existing \<or> needs_description m existing \<Longrightarrow> favorite m \<or> description m \<noteq> []"
  by (auto simp add: needs_rating_def needs_description_def)

lemma process_entry_sticky:
  "rd (world s) (full_path (file_record e)) = (Inr existing, w1) \<Longrightarrow>
   evaluate_conflict existing (needs_rating (meta e) existing) (needs_description (meta e) existing) \<Longrightarrow>
   skip_all_conflicts s \<Longrightarrow>
   process_entry rd pr ru args s e = count_skipped (invoked (ReadCall (full_path (file_record e))) w1 s)"
  by (auto simp add: process_entry_def Let_def needs_rating_def needs_description_def evaluate_conflict_def)

lemma conflict_imp_needs:
  "evaluate_conflict existing nr nd \<Longrightarrow> nr \<or> nd"
  by (auto simp add: evaluate_conflict_def)

lemma process_entry_prompt:
  assumes "rd (world s) (full_path (file_record e)) = (Inr existing, w1)"
    and "evaluate_conflict existing (needs_rating (meta e) existing) (needs_description (meta e) existing)"
    and "\<not> skip_all_conflicts s"
    and "pr w1 (rel_path (file_record e)) existing (meta e) = (d, w2)"
  shows "process_entry rd pr ru args s e =
     (let s1 = invoked (ReadCall (full_path (file_record e))) w1 s;
          s2 = invoked (PromptCall (rel_path (file_record e)) d) w2 s1
      in case d of
           Skip \<Rightarrow> count_skipped s2
         | SkipAll \<Rightarrow> count_skipped (s2\<lparr>skip_all_conflicts := True\<rparr>)
         | Overwrite \<Rightarrow>
             apply_change ru args (full_path (file_record e)) (meta e)
               (needs_rating (meta e) existing) (needs_description (meta e) existing) s2)"
proof -
  from conflict_imp_needs [OF assms(2)] needs_imp_metadata
  have g: "favorite (meta e) \<or> description (meta e) \<noteq> []"
    and n: "needs_rating (meta e) existing \<or> needs_description (meta e) existing" by blast+
  show ?thesis using assms g n
    by (cases d) (auto simp add: process_entry_def Let_def)
qed

lemma process_entry_no_conflict:
  assumes "rd (world s) (full_path (file_record e)) = (Inr existing, w1)"
    and "needs_rating (meta e) existing \<or> needs_description (meta e) existing"
    and "\<not> evaluate_conflict existing (needs_rating (meta e) existing) (needs_description (meta e) existing)"
  shows "process_entry rd pr ru args s e =
     apply_change ru args (full_path (file_record e)) (meta e)
       (needs_rating (meta e) existing) (needs_description (meta e) existing)
       (invoked (ReadCall (full_path (file_record e))) w1 s)"
proof -
  from needs_imp_metadata [OF assms(2)]
  have g: "favorite (meta e) \<or> description (meta e) \<noteq> []" .
  show ?thesis using assms g
    by (auto simp add: process_entry_def Let_def)
qed

lemma process_entry_cases:
  obtains
    (no_metadata) "\<not> favorite (meta e)" and "description (meta e) = []"
      and "process_entry rd pr ru args s e = count_skipped s"
  | (read_error) err w1 where "rd (world s) (full_path (file_record e)) = (Inl err, w1)"
      and "process_entry rd pr ru args s e
             = count_error (invoked (ReadCall (full_path (file_record e))) w1 s)"
  | (up_to_date) existing w1 where "rd (world s) (full_path (file_record e)) = (Inr existing, w1)"
      and "\<not> needs_rating (meta e) existing" and "\<not> needs_description (meta e) existing"
      and "process_entry rd pr ru args s e
             = count_skipped (invoked (ReadCall (full_path (file_record e))) w1 s)"
  | (sticky) existing w1 where "rd (world s) (full_path (file_record e)) = (Inr existing, w1)"
      and "evaluate_conflict existing (needs_rating (meta e) existing)
             (needs_description (meta e) existing)"
      and "skip_all_conflicts s"
      and "process_entry rd pr ru args s e
             = count_skipped (invoked (ReadCall (full_path (file_record e))) w1 s)"
  | (prompt) existing w1 d w2 where "rd (world s) (full_path (file_record e)) = (Inr existing, w1)"
      and "evaluate_conflict existing (needs_rating (meta e) existing)
             (needs_description (meta e) existing)"
      and "\<not> skip_all_conflicts s"
      and "pr w1 (rel_path (file_record e)) existing (meta e) = (d, w2)"
      and "process_entry rd pr ru args s e =
             (case d of
                Skip \<Rightarrow>
                  count_skipped
                    (invoked (PromptCall (rel_path (file_record e)) d) w2
                       (invoked (ReadCall (full_path (file_record e))) w1 s))
              | SkipAll \<Rightarrow>
                  count_skipped
                    ((invoked (PromptCall (rel_path (file_record e)) d) w2
                        (invoked (ReadCall (full_path (file_record e))) w1 s))
                       \<lparr>skip_all_conflicts := True\<rparr>)
              | Overwrite \<Rightarrow>
                  apply_change ru args (full_path (file_record e)) (meta e)
                    (needs_rating (meta e) existing) (needs_description (meta e) existing)
                    (invoked (PromptCall (rel_path (file_record e)) d) w2
                       (invoked (ReadCall (full_path (file_record e))) w1 s)))"
  | (no_conflict) existing w1 where "rd (world s) (full_path (file_record e)) = (Inr existing, w1)"
      and "needs_rating (meta e) existing \<or> needs_description (meta e) existing"
      and "\<not> evaluate_conflict existing (needs_rating (meta e) existing)
               (needs_description (meta e) existing)"
      and "process_entry rd pr ru args s e =
             apply_change ru args (full_path (file_record e)) (meta e)
               (needs_rating (meta e) existing) (needs_description (meta e) existing)
               (invoked (ReadCall (full_path (file_record e))) w1 s)"
proof (cases "\<not> favorite (meta e) \<and> description (meta e) = []")
  case True
  then have a: "\<not> favorite (meta e)" and b: "description (meta e) = []" by simp_all
  show ?thesis by (rule no_metadata [OF a b process_entry_no_metadata [OF a b]])
next
  case False
  then have g: "favorite (meta e) \<or> description (meta e) \<noteq> []" by simp
  obtain res w1 where r: "rd (world s) (full_path (file_record e)) = (res, w1)"
    by (cases "rd (world s) (full_path (file_record e))")
  show ?thesis
  proof (cases res)
    case (Inl err)
    with r have r': "rd (world s) (full_path (file_record e)) = (Inl err, w1)" by simp
    show ?thesis by (rule read_error [OF r' process_entry_read_error [where rd=rd and s=s and e=e, OF g r']])
  next
    case (Inr existing)
    with r have r': "rd (world s) (full_path (file_record e)) = (Inr existing, w1)" by simp
    show ?thesis
    proof (cases "needs_rating (meta e) existing \<or> needs_description (meta e) existing")
      case False
      then have a: "\<not> needs_rating (meta e) existing" and b: "\<not> needs_description (meta e) existing"
        by simp_all
      show ?thesis by (rule up_to_date [OF r' a b process_entry_up_to_date [where rd=rd and s=s and e=e, OF g r' a b]])
    next
      case n: True
      show ?thesis
      proof (cases "evaluate_conflict existing (needs_rating (meta e) existing)
               (needs_description (meta e) existing)")
        case False
        show ?thesis by (rule no_conflict [OF r' n False process_entry_no_conflict [where rd=rd and s=s and e=e, OF r' n False]])
      next
        case c: True
        show ?thesis
        proof (cases "skip_all_conflicts s")
          case True
          show ?thesis by (rule sticky [OF r' c True process_entry_sticky [where rd=rd and s=s and e=e, OF r' c True]])
        next
          case False
          obtain d w2 where p: "pr w1 (rel_path (file_record e)) existing (meta e) = (d, w2)"
            by (cases "pr w1 (rel_path (file_record e)) existing (meta e)")
          from process_entry_prompt [where rd=rd and s=s and e=e and pr=pr and ru=ru and args=args, OF r' c False p]
          have "process_entry rd pr ru args s e =
             (case d of
                Skip \<Rightarrow>
                  count_skipped
                    (invoked (PromptCall (rel_path (file_record e)) d) w2
                       (invoked (ReadCall (full_path (file_record e))) w1 s))
              | SkipAll \<Rightarrow>
                  count_skipped
                    ((invoked (PromptCall (rel_path (file_record e)) d) w2
                        (invoked (ReadCall (full_path (file_record e))) w1 s))
                       \<lparr>skip_all_conflicts := True\<rparr>)
              | Overwrite \<Rightarrow>
                  apply_change ru args (full_path (file_record e)) (meta e)
                    (needs_rating (meta e) existing) (needs_description (meta e) existing)
                    (invoked (PromptCall (rel_path (file_record e)) d) w2
                       (invoked (ReadCall (full_path (file_record e))) w1 s)))"
            by (simp add: Let_def)
          then show ?thesis by (rule prompt [OF r' c False p])
        qed
      qed
    qed
  qed
qed

lemma process_entry_one_counter:
  "(processed (process_entry rd pr ru args s e) = processed s + 1
      \<and> skipped (process_entry rd pr ru args s e) = skipped s
      \<and> errors (process_entry rd pr ru args s e) = errors s)
   \<or> (processed (process_entry rd pr ru args s e) = processed s
      \<and> skipped (process_entry rd pr ru args s e) = skipped s + 1
      \<and> errors (process_entry rd pr ru args s e) = errors s)
   \<or> (processed (process_entry rd pr ru args s e) = processed s
      \<and> skipped (process_entry rd pr ru args s e) = skipped s
      \<and> errors (process_entry rd pr ru args s e) = errors s + 1)"
proof (cases rule: process_entry_cases [where e=e and rd=rd and s=s and pr=pr and ru=ru and args=args])
  case (prompt existing w1 d w2)
  show ?thesis
  proof (cases d)
    case Overwrite
    with prompt(5) apply_change_counters [of ru args "full_path (file_record e)" "meta e"
        "needs_rating (meta e) existing" "needs_description (meta e) existing"
        "invoked (PromptCall (rel_path (file_record e)) d) w2
                       (invoked (ReadCall (full_path (file_record e))) w1 s)"]
    show ?thesis by simp
  qed (simp_all add: prompt(5))
next
  case (no_conflict existing w1)
  with apply_change_counters [of ru args "full_path (file_record e)" "meta e"
        "needs_rating (meta e) existing" "needs_description (meta e) existing"
        "invoked (ReadCall (full_path (file_record e))) w1 s"]
  show ?thesis by simp
qed simp_all

lemma migrate_total:
  "processed (migrate rd pr ru args s xs) + skipped (migrate rd pr ru args s xs)
     + errors (migrate rd pr ru args s xs)
   = processed s + skipped s + errors s + length xs"
proof (induction xs arbitrary: s)
  case Nil
  show ?case by simp
next
  case (Cons e xs)
  from process_entry_one_counter [of rd pr ru args s e]
  have "processed (process_entry rd pr ru args s e) + skipped (process_entry rd pr ru args s e)
          + errors (process_entry rd pr ru args s e) = processed s + skipped s + errors s + 1"
    by auto
  with Cons.IH [of "process_entry rd pr ru args s e"] show ?case by simp
qed

lemma new_calls_append [simp]: "calls s' = calls s @ ws \<Longrightarrow> new_calls s s' = ws"
  by (simp add: new_calls_def)

lemma new_calls_self [simp]: "new_calls s s = []"
  by (simp add: new_calls_def)

text \<open>What one iteration appends to the log.\<close>

lemma process_entry_calls:
  "\<exists>ws. calls (process_entry rd pr ru args s e) = calls s @ ws
        \<and> (skip_all_conflicts s \<longrightarrow> \<not> list_ex is_prompt ws)
        \<and> (dry_run args \<longrightarrow> \<not> list_ex is_write ws)"
proof (cases rule: process_entry_cases [where e=e and rd=rd and s=s and pr=pr and ru=ru and args=args])
  case (prompt existing w1 d w2)
  show ?thesis
  proof (cases d)
    case Overwrite
    from apply_change_calls [of ru args "full_path (file_record e)" "meta e"
        "needs_rating (meta e) existing" "needs_description (meta e) existing"
        "invoked (PromptCall (rel_path (file_record e)) d) w2
                       (invoked (ReadCall (full_path (file_record e))) w1 s)"]
    obtain ws where "calls (process_entry rd pr ru args s e)
        = (calls s @ [ReadCall (full_path (file_record e)), PromptCall (rel_path (file_record e)) d]) @ ws"
      and "dry_run args \<longrightarrow> ws = []"
      using prompt(5) Overwrite by auto
    with prompt(3) show ?thesis by (auto simp add: is_write_def)
  qed (simp_all add: prompt is_write_def)
next
  case (no_conflict existing w1)
  from apply_change_calls [of ru args "full_path (file_record e)" "meta e"
        "needs_rating (meta e) existing" "needs_description (meta e) existing"
        "invoked (ReadCall (full_path (file_record e))) w1 s"]
  obtain ws where "calls (process_entry rd pr ru args s e)
        = (calls s @ [ReadCall (full_path (file_record e))]) @ ws"
      and "list_all is_write ws" and "dry_run args \<longrightarrow> ws = []"
    using no_conflict(4) by auto
  then show ?thesis
    by (auto simp add: is_write_def is_prompt_def list_ex_iff list_all_iff split: event.splits)
qed (simp_all add: is_write_def is_prompt_def)

lemma process_entry_keeps_flag:
  "skip_all_conflicts s \<Longrightarrow> skip_all_conflicts (process_entry rd pr ru args s e)"
proof (cases rule: process_entry_cases [where e=e and rd=rd and s=s and pr=pr and ru=ru and args=args])
  case (no_conflict existing w1)
  assume "skip_all_conflicts s"
  with no_conflict(4) show ?thesis by (simp add: apply_change_counters)
qed simp_all

lemma migrate_calls:
  "\<exists>ws. calls (migrate rd pr ru args s xs) = calls s @ ws
        \<and> (skip_all_conflicts s \<longrightarrow> \<not> list_ex is_prompt ws)
        \<and> (dry_run args \<longrightarrow> \<not> list_ex is_write ws)"
proof (induction xs arbitrary: s)
  case Nil
  show ?case by simp
next
  case (Cons e xs)
  from process_entry_calls [of rd pr ru args s e] obtain ws1 where
    1: "calls (process_entry rd pr ru args s e) = calls s @ ws1"
       "skip_all_conflicts s \<longrightarrow> \<not> list_ex is_prompt ws1"
       "dry_run args \<longrightarrow> \<not> list_ex is_write ws1" by blast
  from Cons.IH [of "process_entry rd pr ru args s e"] obtain ws2 where
    2: "calls (migrate rd pr ru args (process_entry rd pr ru args s e) xs)
          = calls (process_entry rd pr ru args s e) @ ws2"
       "skip_all_conflicts (process_entry rd pr ru args s e) \<longrightarrow> \<not> list_ex is_prompt ws2"
       "dry_run args \<longrightarrow> \<not> list_ex is_write ws2" by blast
  have "calls (migrate rd pr ru args s (e # xs)) = calls s @ (ws1 @ ws2)"
    using 1(1) 2(1) by simp
  moreover have "skip_all_conflicts s \<longrightarrow> \<not> list_ex is_prompt (ws1 @ ws2)"
    using 1(2) 2(2) process_entry_keeps_flag [of s rd pr ru args e] by (auto simp add: list_ex_iff)
  moreover have "dry_run args \<longrightarrow> \<not> list_ex is_write (ws1 @ ws2)"
    using 1(3) 2(3) by (auto simp add: list_ex_iff)
  ultimately show ?case by blast
qed

lemma migrate_keeps_flag:
  "skip_all_conflicts s \<Longrightarrow> skip_all_conflicts (migrate rd pr ru args s xs)"
  by (induction xs arbitrary: s) (simp_all add: process_entry_keeps_flag)

lemma conflict_write_path:
  assumes r: "rd (world s) (full_path (file_record e)) = (Inr existing, w1)"
    and c: "evaluate_conflict existing (needs_rating (meta e) existing)
              (needs_description (meta e) existing)"
  shows "(skip_all_conflicts s \<longrightarrow>
            new_calls s (process_entry rd pr ru args s e) = [ReadCall (full_path (file_record e))])
       \<and> (\<not> skip_all_conflicts s \<and> fst (pr w1 (rel_path (file_record e)) existing (meta e)) \<noteq> Overwrite \<longrightarrow>
            new_calls s (process_entry rd pr ru args s e)
              = [ReadCall (full_path (file_record e)),
                 PromptCall (rel_path (file_record e))
                   (fst (pr w1 (rel_path (file_record e)) existing (meta e)))])
       \<and> (\<not> skip_all_conflicts s \<and> fst (pr w1 (rel_path (file_record e)) existing (meta e)) = Overwrite \<longrightarrow>
            (\<exists>ws. new_calls s (process_entry rd pr ru args s e)
              = [ReadCall (full_path (file_record e)),
                 PromptCall (rel_path (file_record e)) Overwrite] @ ws
              \<and> list_all is_write ws \<and> (dry_run args \<longrightarrow> ws = [])))"
proof (cases "skip_all_conflicts s")
  case True
  with process_entry_sticky [where rd=rd and s=s and e=e, OF r c True] show ?thesis
    by (simp add: new_calls_def)
next
  case False
  obtain d w2 where p: "pr w1 (rel_path (file_record e)) existing (meta e) = (d, w2)"
    by (cases "pr w1 (rel_path (file_record e)) existing (meta e)")
  note pe = process_entry_prompt [where rd=rd and s=s and e=e and pr=pr and ru=ru and args=args,
      OF r c False p]
  show ?thesis
  proof (cases d)
    case Overwrite
    from apply_change_calls [of ru args "full_path (file_record e)" "meta e"
        "needs_rating (meta e) existing" "needs_description (meta e) existing"
        "invoked (PromptCall (rel_path (file_record e)) d) w2
                       (invoked (ReadCall (full_path (file_record e))) w1 s)"]
    obtain ws where "calls (process_entry rd pr ru args s e)
        = calls s @ ([ReadCall (full_path (file_record e)), PromptCall (rel_path (file_record e)) d] @ ws)"
      and "list_all is_write ws" and "dry_run args \<longrightarrow> ws = []"
      using pe Overwrite by (auto simp add: Let_def)
    with False p Overwrite show ?thesis by (simp add: new_calls_def)
  next
    case Skip
    with False p pe show ?thesis by (simp add: new_calls_def Let_def)
  next
    case SkipAll
    with False p pe show ?thesis by (simp add: new_calls_def Let_def)
  qed
qed

section \<open>Properties of the path normalizer\<close>

lemma truncate_loop_first_marker:
  "i < length parts \<Longrightarrow> is_apple_dir py (parts ! i) \<Longrightarrow>
   \<forall>j<i. \<not> is_apple_dir py (parts ! j) \<Longrightarrow>
   truncate_loop py parts = Some (join [slash] (drop i parts))"
proof (induction parts arbitrary: i)
  case Nil
  then show ?case by simp
next
  case (Cons part rest)
  show ?case
  proof (cases i)
    case 0
    with Cons.prems show ?thesis by simp
  next
    case (Suc k)
    with Cons.prems have "\<not> is_apple_dir py part" by auto
    moreover from Suc Cons.prems have "truncate_loop py rest = Some (join [slash] (drop k rest))"
      by (intro Cons.IH) auto
    ultimately show ?thesis using Suc by simp
  qed
qed

lemma truncate_loop_none:
  "\<forall>part \<in> set parts. \<not> is_apple_dir py part \<Longrightarrow> truncate_loop py parts = None"
  by (induction parts) simp_all

section \<open>Properties of the query and the extractor\<close>

lemma table_names_distinct:
  "ZASSET \<noteq> ZADDITIONALASSETATTRIBUTES" "ZASSET \<noteq> ZASSETDESCRIPTION"
  "ZASSET \<noteq> ZEXTENDEDATTRIBUTES" "ZADDITIONALASSETATTRIBUTES \<noteq> ZASSETDESCRIPTION"
  "ZADDITIONALASSETATTRIBUTES \<noteq> ZEXTENDEDATTRIBUTES" "ZASSETDESCRIPTION \<noteq> ZEXTENDEDATTRIBUTES"
  by (simp_all add: ZASSET_def ZADDITIONALASSETATTRIBUTES_def ZASSETDESCRIPTION_def
        ZEXTENDEDATTRIBUTES_def u_def)

lemma int_column_flags:
  "int_column r ZASSET (u ''ZFAVORITE'') = ZASSET_ZFAVORITE r"
  "int_column r ZASSET (u ''ZTRASHEDSTATE'') = ZASSET_ZTRASHEDSTATE r"
  by (simp_all add: int_column_def u_def)

lemma text_column_sources:
  "text_column r ZASSETDESCRIPTION (u ''ZLONGDESCRIPTION'') = ZASSETDESCRIPTION_ZLONGDESCRIPTION r"
  "text_column r ZADDITIONALASSETATTRIBUTES (u ''ZTITLE'') = ZADDITIONALASSETATTRIBUTES_ZTITLE r"
  "text_column r ZEXTENDEDATTRIBUTES (u ''ZCAPTION'') = ZEXTENDEDATTRIBUTES_ZCAPTION r"
  using table_names_distinct by (simp_all add: text_column_def u_def)

lemma eval_source_clause:
  "eval_text r (source_clause src)
     = (case source_value src r of
          None \<Rightarrow> None
        | Some x \<Rightarrow> if x = [] then None else Some x)"
  by (cases src)
     (auto simp add: source_clause_def source_value_def long_description_clause_def
        title_clause_def caption_clause_def text_column_sources split: option.splits)

lemma build_desc_clauses_order:
  "build_desc_clauses tbls = map source_clause (filter (source_present tbls) precedence)"
  by (simp add: build_desc_clauses_def Let_def source_present_def precedence_def source_clause_def)

lemma coalesce_first_nonempty:
  "coalesce (map (eval_text r) (map source_clause srcs) @ [Some []])
     = Some (first_nonempty (map (\<lambda>src. source_value src r) srcs))"
proof (induction srcs)
  case Nil
  show ?case by simp
next
  case (Cons src srcs)
  then show ?case
    by (cases "source_value src r") (simp_all add: eval_source_clause)
qed

lemma eval_desc_expr_first_nonempty:
  "eval_text r (desc_expr (map source_clause srcs))
     = Some (first_nonempty (map (\<lambda>src. source_value src r) srcs))"
proof (cases srcs)
  case Nil
  then show ?thesis by (simp add: desc_expr_def)
next
  case (Cons src srcs')
  then have "eval_text r (desc_expr (map source_clause srcs))
      = coalesce (map (eval_text r) (map source_clause srcs) @ [Some []])"
    by (simp add: desc_expr_def)
  then show ?thesis by (simp only: coalesce_first_nonempty)
qed

text \<open>
  Whenever the query runs, its \<^verbatim>\<open>DESCRIPTION\<close> column is the first non-empty value of the
  sources present, in the order long description, title, caption, and the empty string
  when there is none.
\<close>

lemma resolved_description_precedence:
  "DESCRIPTION (select_row (build_metadata_query tbls) r) = Some (spec_resolved_description tbls r)"
  by (simp add: select_row_def build_metadata_query_def Let_def build_desc_clauses_order
        eval_desc_expr_first_nonempty spec_resolved_description_def)

lemma where_cond_true:
  "eval_cond r (where_cond (build_metadata_query tbls)) = Some True \<longleftrightarrow>
     ZASSET_ZTRASHEDSTATE r = Some 0
     \<and> (ZASSET_ZFAVORITE r = Some 1
        \<or> DESCRIPTION (select_row (build_metadata_query tbls) r) \<noteq> Some [])"
proof -
  have d: "eval_text r (desc_expr (build_desc_clauses tbls)) = Some (spec_resolved_description tbls r)"
    using resolved_description_precedence [of tbls r]
    by (simp add: select_row_def build_metadata_query_def Let_def)
  show ?thesis
    by (cases "ZASSET_ZTRASHEDSTATE r"; cases "ZASSET_ZFAVORITE r")
       (auto simp add: build_metadata_query_def Let_def select_row_def d int_column_flags
          sql_and_def sql_or_def)
qed

lemma collect_rows_subset:
  "set (collect_rows py acc rows) \<subseteq> set acc \<union> (\<lambda>row. (row_key py row, row_meta py row)) ` set rows"
  by (induction py acc rows rule: collect_rows.induct) auto

lemma run_query_skips:
  "eval_cond r (where_cond q) \<noteq> Some True \<Longrightarrow>
   run_query q (rel1 @ r # rel2) = run_query q (rel1 @ rel2)"
  by (simp add: run_query_def)

lemma read_database_metadata_rows:
  "table_info db = Inr tbls \<Longrightarrow> from_clause db (build_joins tbls) = Inr rel \<Longrightarrow>
   read_database_metadata py db
     = (if query_resolves tbls (build_metadata_query tbls)
        then collect_rows py [] (run_query (build_metadata_query tbls) rel)
        else [])"
  by (simp add: read_database_metadata_def execute_query_def build_metadata_query_def Let_def)

text \<open>
  The \<^verbatim>\<open>WHERE\<close> clause tests the description before \<^verbatim>\<open>strip()\<close>: an asset that is not a
  favorite and whose only description is blank passes the filter, and its record carries
  the empty description. The first test of the loop body of \<^verbatim>\<open>run_migration\<close> skips such
  a record.
\<close>

lemma blank_description_row:
  "eval_cond (asset_row (u ''DCIM/100APPLE'') (u ''IMG_5.JPG'') 0 0 None (Some (u '' '')))
     (where_cond (build_metadata_query example_tables)) = Some True
   \<and> row_meta ascii_str
       (select_row (build_metadata_query example_tables)
          (asset_row (u ''DCIM/100APPLE'') (u ''IMG_5.JPG'') 0 0 None (Some (u '' ''))))
       = \<lparr>relative_path = u ''100APPLE/IMG_5.JPG'', favorite = False, description = []\<rparr>"
  by code_simp

section \<open>Properties of the run\<close>

lemma match_metadata_empty: "match_metadata [] photo_files = []"
  by simp

lemma store_failure_empty: "store_read_fails db \<Longrightarrow> read_database_metadata py db = []"
  by (simp add: store_read_fails_def read_database_metadata_def split: sum.splits)

section \<open>The claims about the merge loop\<close>

text \<open>
  Claim C4. For a matched pair whose embedded metadata was read as \<open>existing\<close>:
  \<open>needs_rating\<close> holds exactly when the metadata record is a favorite and the embedded
  rating is absent or below 4; \<open>needs_description\<close> holds exactly when the metadata
  description is non-empty and differs from the embedded one (an absent embedded
  description compared as the empty string); and when neither holds, the iteration adds one
  to \<open>skipped\<close>, leaves \<open>processed\<close> and \<open>errors\<close> alone, and neither writes nor asks.
\<close>

theorem needs_and_noop:
  "(needs_rating m existing \<longleftrightarrow>
      favorite m \<and> (rating existing = None \<or> (\<exists>r. rating existing = Some r \<and> r < 4)))
   \<and> (needs_description m existing \<longleftrightarrow>
      description m \<noteq> [] \<and> description m \<noteq> or_empty (exif_description existing))
   \<and> (rd (world s) (full_path (file_record e)) = (Inr existing, w1)
        \<and> \<not> needs_rating (meta e) existing \<and> \<not> needs_description (meta e) existing
      \<longrightarrow> skipped (process_entry rd pr ru args s e) = skipped s + 1
        \<and> processed (process_entry rd pr ru args s e) = processed s
        \<and> errors (process_entry rd pr ru args s e) = errors s
        \<and> \<not> list_ex is_write (new_calls s (process_entry rd pr ru args s e))
        \<and> \<not> list_ex is_prompt (new_calls s (process_entry rd pr ru args s e)))"
proof (intro conjI impI)
  show "needs_rating m existing \<longleftrightarrow>
      favorite m \<and> (rating existing = None \<or> (\<exists>r. rating existing = Some r \<and> r < 4))"
    by (cases "rating existing") (simp_all add: needs_rating_def)
  show "needs_description m existing \<longleftrightarrow>
      description m \<noteq> [] \<and> description m \<noteq> or_empty (exif_description existing)"
    by (simp add: needs_description_def or_empty_def)
next
  assume a: "rd (world s) (full_path (file_record e)) = (Inr existing, w1)
        \<and> \<not> needs_rating (meta e) existing \<and> \<not> needs_description (meta e) existing"
  have "process_entry rd pr ru args s e = count_skipped s
      \<or> process_entry rd pr ru args s e
          = count_skipped (invoked (ReadCall (full_path (file_record e))) w1 s)"
  proof (cases "\<not> favorite (meta e) \<and> description (meta e) = []")
    case True
    then show ?thesis by (simp add: process_entry_no_metadata)
  next
    case False
    then have "favorite (meta e) \<or> description (meta e) \<noteq> []" by simp
    from process_entry_up_to_date [where rd=rd and s=s and e=e, OF this] a
    show ?thesis by simp
  qed
  then have r: "skipped (process_entry rd pr ru args s e) = skipped s + 1
        \<and> processed (process_entry rd pr ru args s e) = processed s
        \<and> errors (process_entry rd pr ru args s e) = errors s
        \<and> \<not> list_ex is_write (new_calls s (process_entry rd pr ru args s e))
        \<and> \<not> list_ex is_prompt (new_calls s (process_entry rd pr ru args s e))"
    by (auto simp add: new_calls_def is_write_def is_prompt_def)
  from r show "skipped (process_entry rd pr ru args s e) = skipped s + 1" by simp
  from r show "processed (process_entry rd pr ru args s e) = processed s" by simp
  from r show "errors (process_entry rd pr ru args s e) = errors s" by simp
  from r show "\<not> list_ex is_write (new_calls s (process_entry rd pr ru args s e))" by simp
  from r show "\<not> list_ex is_prompt (new_calls s (process_entry rd pr ru args s e))" by simp
qed

theorem needs_and_noop_witness:
  "skipped (process_entry example_reader (example_prompter Skip) example_runner live_args
              (initial_session ()) pair_current) = 1
   \<and> \<not> list_ex is_write
         (new_calls (initial_session ())
            (process_entry example_reader (example_prompter Skip) example_runner live_args
               (initial_session ()) pair_current))"
  using needs_and_noop [of "meta pair_current" "\<lparr>rating = None, exif_description = Some (u ''Sunset'')\<rparr>"
      example_reader "initial_session ()" pair_current "()" "example_prompter Skip" example_runner live_args]
  by (simp add: u_def example_reader_def pair_current_def needs_rating_def needs_description_def
        initial_session_def or_empty_def)

text \<open>
  Claim C5. \<open>evaluate_conflict\<close> holds exactly when the rating is needed and an embedded
  rating other than 4 is present, or the description is needed and a non-empty embedded
  description is present. For a conflicting pair, if the iteration logs a write at all,
  then the sticky flag was off, the console answered \<open>Overwrite\<close>, and the log of the
  iteration is the read, then that answer, then only writes.
\<close>

theorem overwrite_only_after_decision:
  "(evaluate_conflict existing nr nd \<longleftrightarrow>
      (nr \<and> (\<exists>r. rating existing = Some r \<and> r \<noteq> 4))
      \<or> (nd \<and> (\<exists>d. exif_description existing = Some d \<and> d \<noteq> [])))
   \<and> (rd (world s) (full_path (file_record e)) = (Inr existing, w1)
        \<and> evaluate_conflict existing (needs_rating (meta e) existing)
            (needs_description (meta e) existing)
        \<and> list_ex is_write (new_calls s (process_entry rd pr ru args s e))
      \<longrightarrow> \<not> skip_all_conflicts s
        \<and> fst (pr w1 (rel_path (file_record e)) existing (meta e)) = Overwrite
        \<and> (\<exists>ws. new_calls s (process_entry rd pr ru args s e)
              = [ReadCall (full_path (file_record e)),
                 PromptCall (rel_path (file_record e)) Overwrite] @ ws
              \<and> list_all is_write ws))"
proof (intro conjI impI)
  show "evaluate_conflict existing nr nd \<longleftrightarrow>
      (nr \<and> (\<exists>r. rating existing = Some r \<and> r \<noteq> 4))
      \<or> (nd \<and> (\<exists>d. exif_description existing = Some d \<and> d \<noteq> []))"
    by (cases "rating existing"; cases "exif_description existing")
       (simp_all add: evaluate_conflict_def)
next
  assume a: "rd (world s) (full_path (file_record e)) = (Inr existing, w1)
        \<and> evaluate_conflict existing (needs_rating (meta e) existing)
            (needs_description (meta e) existing)
        \<and> list_ex is_write (new_calls s (process_entry rd pr ru args s e))"
  then have r: "rd (world s) (full_path (file_record e)) = (Inr existing, w1)"
    and c: "evaluate_conflict existing (needs_rating (meta e) existing)
            (needs_description (meta e) existing)"
    and w: "list_ex is_write (new_calls s (process_entry rd pr ru args s e))" by simp_all
  note p = conflict_write_path [where rd=rd and s=s and e=e and pr=pr and ru=ru and args=args, OF r c]
  from p w have 1: "\<not> skip_all_conflicts s" by (auto simp add: is_write_def)
  from p w 1 have 2: "fst (pr w1 (rel_path (file_record e)) existing (meta e)) = Overwrite"
    by (auto simp add: is_write_def)
  from 1 show "\<not> skip_all_conflicts s" .
  from 2 show "fst (pr w1 (rel_path (file_record e)) existing (meta e)) = Overwrite" .
  from p 1 2 show "\<exists>ws. new_calls s (process_entry rd pr ru args s e)
              = [ReadCall (full_path (file_record e)),
                 PromptCall (rel_path (file_record e)) Overwrite] @ ws
              \<and> list_all is_write ws" by blast
qed

theorem overwrite_only_after_decision_witness:
  "list_ex is_write
     (new_calls (initial_session ())
        (process_entry example_reader (example_prompter Overwrite) example_runner live_args
           (initial_session ()) pair_conflict))
   \<and> fst (example_prompter Overwrite () (u ''100APPLE/IMG_2.JPG'')
            \<lparr>rating = Some 2, exif_description = Some (u ''Old'')\<rparr> (meta pair_conflict)) = Overwrite
   \<and> take 2 (new_calls (initial_session ())
        (process_entry example_reader (example_prompter Overwrite) example_runner live_args
           (initial_session ()) pair_conflict))
       = [ReadCall (u ''/photos/100APPLE/IMG_2.JPG''), PromptCall (u ''100APPLE/IMG_2.JPG'') Overwrite]"
proof -
  have w: "list_ex is_write
     (new_calls (initial_session ())
        (process_entry example_reader (example_prompter Overwrite) example_runner live_args
           (initial_session ()) pair_conflict))"
    by (simp add: process_entry_def apply_change_def write_exif_data_def build_write_cmd_args_def
          u_def example_reader_def example_prompter_def example_runner_def pair_conflict_def live_args_def
          needs_rating_def needs_description_def evaluate_conflict_def initial_session_def
          invoked_def count_processed_def new_calls_def is_write_def Let_def)
  from w overwrite_only_after_decision [of "\<lparr>rating = Some 2, exif_description = Some (u ''Old'')\<rparr>" True True
      example_reader "initial_session ()" pair_conflict "()" "example_prompter Overwrite"
      example_runner live_args]
  show ?thesis
    by (auto simp add: u_def example_reader_def pair_conflict_def needs_rating_def needs_description_def
          evaluate_conflict_def initial_session_def)
qed

text \<open>
  Claim C10. Whatever the reader, the console and the write command do, one iteration of
  the loop adds one to exactly one of \<open>processed\<close>, \<open>skipped\<close>, \<open>errors\<close> and leaves
  the other two alone; so after \<open>run_migration\<close> the three counters add up to the number
  of matched pairs.
\<close>

theorem merge_counts_every_pair_once:
  "((processed (process_entry rd pr ru args s e) = processed s + 1
       \<and> skipped (process_entry rd pr ru args s e) = skipped s
       \<and> errors (process_entry rd pr ru args s e) = errors s)
    \<or> (processed (process_entry rd pr ru args s e) = processed s
       \<and> skipped (process_entry rd pr ru args s e) = skipped s + 1
       \<and> errors (process_entry rd pr ru args s e) = errors s)
    \<or> (processed (process_entry rd pr ru args s e) = processed s
       \<and> skipped (process_entry rd pr ru args s e) = skipped s
       \<and> errors (process_entry rd pr ru args s e) = errors s + 1))
   \<and> processed (run_migration rd pr ru args w matched)
       + skipped (run_migration rd pr ru args w matched)
       + errors (run_migration rd pr ru args w matched) = length matched"
  using process_entry_one_counter [of rd pr ru args s e]
    migrate_total [of rd pr ru args "initial_session w" matched]
  by (simp add: run_migration_def initial_session_def)

theorem merge_counts_every_pair_once_witness:
  "processed (run_migration example_reader (example_prompter Overwrite) example_runner live_args ()
                [pair_fresh, pair_conflict, pair_current])
   + skipped (run_migration example_reader (example_prompter Overwrite) example_runner live_args ()
                [pair_fresh, pair_conflict, pair_current])
   + errors (run_migration example_reader (example_prompter Overwrite) example_runner live_args ()
                [pair_fresh, pair_conflict, pair_current]) = 3"
  using merge_counts_every_pair_once [of example_reader "example_prompter Overwrite" example_runner
      live_args "initial_session ()" pair_fresh "()" "[pair_fresh, pair_conflict, pair_current]"]
  by simp

text \<open>
  Claim C6. When the console answers \<open>SkipAll\<close> for a conflicting pair, the iteration
  sets \<open>skip_all_conflicts\<close> and counts the pair as skipped. From any session in which
  the flag is set, whatever pairs follow: the flag is still set at the end, the console is
  never asked again, and every later conflicting pair whose metadata can be read is
  counted as skipped, with the read as the only invocation.
\<close>

theorem sticky_skip_all:
  "(rd (world s) (full_path (file_record e)) = (Inr existing, w1)
      \<and> evaluate_conflict existing (needs_rating (meta e) existing)
            (needs_description (meta e) existing)
      \<and> \<not> skip_all_conflicts s
      \<and> fst (pr w1 (rel_path (file_record e)) existing (meta e)) = SkipAll
    \<longrightarrow> skip_all_conflicts (process_entry rd pr ru args s e)
      \<and> skipped (process_entry rd pr ru args s e) = skipped s + 1)
   \<and> (skip_all_conflicts s
    \<longrightarrow> skip_all_conflicts (migrate rd pr ru args s xs)
      \<and> \<not> list_ex is_prompt (new_calls s (migrate rd pr ru args s xs)))
   \<and> (skip_all_conflicts s
      \<and> rd (world (migrate rd pr ru args s xs)) (full_path (file_record e)) = (Inr existing, w1)
      \<and> evaluate_conflict existing (needs_rating (meta e) existing)
            (needs_description (meta e) existing)
    \<longrightarrow> process_entry rd pr ru args (migrate rd pr ru args s xs) e
        = count_skipped
            (invoked (ReadCall (full_path (file_record e))) w1 (migrate rd pr ru args s xs)))"
proof (intro conjI impI)
  assume a: "rd (world s) (full_path (file_record e)) = (Inr existing, w1)
      \<and> evaluate_conflict existing (needs_rating (meta e) existing)
            (needs_description (meta e) existing)
      \<and> \<not> skip_all_conflicts s
      \<and> fst (pr w1 (rel_path (file_record e)) existing (meta e)) = SkipAll"
  then have r: "rd (world s) (full_path (file_record e)) = (Inr existing, w1)"
    and c: "evaluate_conflict existing (needs_rating (meta e) existing)
            (needs_description (meta e) existing)"
    and n: "\<not> skip_all_conflicts s" by simp_all
  from a obtain w2 where p: "pr w1 (rel_path (file_record e)) existing (meta e) = (SkipAll, w2)"
    by (cases "pr w1 (rel_path (file_record e)) existing (meta e)") simp
  note pe = process_entry_prompt [where rd=rd and s=s and e=e and pr=pr and ru=ru and args=args,
      OF r c n p]
  from pe show "skip_all_conflicts (process_entry rd pr ru args s e)" by (simp add: Let_def)
  from pe show "skipped (process_entry rd pr ru args s e) = skipped s + 1" by (simp add: Let_def)
next
  assume f: "skip_all_conflicts s"
  from migrate_keeps_flag [OF f] show "skip_all_conflicts (migrate rd pr ru args s xs)" .
  from migrate_calls [of rd pr ru args s xs] f
  show "\<not> list_ex is_prompt (new_calls s (migrate rd pr ru args s xs))" by auto
next
  assume a: "skip_all_conflicts s
      \<and> rd (world (migrate rd pr ru args s xs)) (full_path (file_record e)) = (Inr existing, w1)
      \<and> evaluate_conflict existing (needs_rating (meta e) existing)
            (needs_description (meta e) existing)"
  then have f: "skip_all_conflicts (migrate rd pr ru args s xs)"
    by (simp add: migrate_keeps_flag)
  from a have r: "rd (world (migrate rd pr ru args s xs)) (full_path (file_record e)) = (Inr existing, w1)"
    and c: "evaluate_conflict existing (needs_rating (meta e) existing)
            (needs_description (meta e) existing)" by simp_all
  show "process_entry rd pr ru args (migrate rd pr ru args s xs) e
        = count_skipped
            (invoked (ReadCall (full_path (file_record e))) w1 (migrate rd pr ru args s xs))"
    by (rule process_entry_sticky [where rd=rd and s="migrate rd pr ru args s xs" and e=e, OF r c f])
qed

theorem sticky_skip_all_witness:
  "skip_all_conflicts
     (process_entry example_reader (example_prompter SkipAll) example_runner live_args
        (initial_session ()) pair_conflict)
   \<and> skip_all_conflicts
       (migrate example_reader (example_prompter SkipAll) example_runner live_args
          (process_entry example_reader (example_prompter SkipAll) example_runner live_args
             (initial_session ()) pair_conflict)
          [pair_fresh, pair_conflict])
   \<and> \<not> list_ex is_prompt
         (new_calls
            (process_entry example_reader (example_prompter SkipAll) example_runner live_args
               (initial_session ()) pair_conflict)
            (migrate example_reader (example_prompter SkipAll) example_runner live_args
               (process_entry example_reader (example_prompter SkipAll) example_runner live_args
                  (initial_session ()) pair_conflict)
               [pair_fresh, pair_conflict]))"
proof -
  have 1: "skip_all_conflicts
     (process_entry example_reader (example_prompter SkipAll) example_runner live_args
        (initial_session ()) pair_conflict)"
    using sticky_skip_all [where rd=example_reader and s="initial_session ()" and e=pair_conflict
        and existing="\<lparr>rating = Some 2, exif_description = Some (u ''Old'')\<rparr>" and ?w1.0="()"
        and pr="example_prompter SkipAll" and ru=example_runner and args=live_args]
    by (simp add: u_def example_reader_def example_prompter_def pair_conflict_def needs_rating_def
          needs_description_def evaluate_conflict_def initial_session_def)
  from 1 sticky_skip_all [where rd=example_reader
        and s="process_entry example_reader (example_prompter SkipAll) example_runner live_args
                 (initial_session ()) pair_conflict"
        and pr="example_prompter SkipAll" and ru=example_runner and args=live_args
        and xs="[pair_fresh, pair_conflict]"]
  show ?thesis by blast
qed

text \<open>
  Claim C7. In dry-run mode: the whole run logs no write invocation, from the initial
  session and from any other; a conflicting pair is still detected and the console is
  still asked (the log of the iteration is the read and the answer); and a pair with a
  pending change that is not in conflict, or whose conflict the console resolves with
  \<open>Overwrite\<close>, adds one to \<open>processed\<close> and nothing to the other counters.
\<close>

theorem dry_run_writes_nothing:
  "dry_run args \<longrightarrow>
     \<not> list_ex is_write (calls (run_migration rd pr ru args w matched))
   \<and> \<not> list_ex is_write (new_calls s (migrate rd pr ru args s xs))
   \<and> (rd (world s) (full_path (file_record e)) = (Inr existing, w1)
        \<and> evaluate_conflict existing (needs_rating (meta e) existing)
              (needs_description (meta e) existing)
        \<and> \<not> skip_all_conflicts s
      \<longrightarrow> new_calls s (process_entry rd pr ru args s e)
            = [ReadCall (full_path (file_record e)),
               PromptCall (rel_path (file_record e))
                 (fst (pr w1 (rel_path (file_record e)) existing (meta e)))])
   \<and> (rd (world s) (full_path (file_record e)) = (Inr existing, w1)
        \<and> (needs_rating (meta e) existing \<or> needs_description (meta e) existing)
        \<and> (\<not> evaluate_conflict existing (needs_rating (meta e) existing)
                (needs_description (meta e) existing)
            \<or> (\<not> skip_all_conflicts s
                \<and> fst (pr w1 (rel_path (file_record e)) existing (meta e)) = Overwrite))
      \<longrightarrow> processed (process_entry rd pr ru args s e) = processed s + 1
        \<and> skipped (process_entry rd pr ru args s e) = skipped s
        \<and> errors (process_entry rd pr ru args s e) = errors s)"
proof (intro impI conjI)
  assume d: "dry_run args"
  from migrate_calls [of rd pr ru args "initial_session w" matched] d
  show "\<not> list_ex is_write (calls (run_migration rd pr ru args w matched))"
    by (auto simp add: run_migration_def initial_session_def)
  from migrate_calls [of rd pr ru args s xs] d
  show "\<not> list_ex is_write (new_calls s (migrate rd pr ru args s xs))" by auto
next
  assume d: "dry_run args"
  assume a: "rd (world s) (full_path (file_record e)) = (Inr existing, w1)
        \<and> evaluate_conflict existing (needs_rating (meta e) existing)
              (needs_description (meta e) existing)
        \<and> \<not> skip_all_conflicts s"
  then have r: "rd (world s) (full_path (file_record e)) = (Inr existing, w1)"
    and c: "evaluate_conflict existing (needs_rating (meta e) existing)
              (needs_description (meta e) existing)"
    and n: "\<not> skip_all_conflicts s" by simp_all
  from conflict_write_path [where rd=rd and s=s and e=e and pr=pr and ru=ru and args=args, OF r c] n d
  show "new_calls s (process_entry rd pr ru args s e)
            = [ReadCall (full_path (file_record e)),
               PromptCall (rel_path (file_record e))
                 (fst (pr w1 (rel_path (file_record e)) existing (meta e)))]"
    by (cases "fst (pr w1 (rel_path (file_record e)) existing (meta e)) = Overwrite") auto
next
  assume d: "dry_run args"
  assume a: "rd (world s) (full_path (file_record e)) = (Inr existing, w1)
        \<and> (needs_rating (meta e) existing \<or> needs_description (meta e) existing)
        \<and> (\<not> evaluate_conflict existing (needs_rating (meta e) existing)
                (needs_description (meta e) existing)
            \<or> (\<not> skip_all_conflicts s
                \<and> fst (pr w1 (rel_path (file_record e)) existing (meta e)) = Overwrite))"
  then have r: "rd (world s) (full_path (file_record e)) = (Inr existing, w1)"
    and nd: "needs_rating (meta e) existing \<or> needs_description (meta e) existing" by simp_all
  have s1: "processed (process_entry rd pr ru args s e) = processed s + 1
      \<and> skipped (process_entry rd pr ru args s e) = skipped s
      \<and> errors (process_entry rd pr ru args s e) = errors s"
  proof (cases "evaluate_conflict existing (needs_rating (meta e) existing)
                (needs_description (meta e) existing)")
    case False
    from process_entry_no_conflict [where rd=rd and s=s and e=e and ru=ru and args=args and pr=pr,
        OF r nd False] d
    show ?thesis by (simp add: apply_change_dry)
  next
    case True
    with a have n: "\<not> skip_all_conflicts s"
      and o: "fst (pr w1 (rel_path (file_record e)) existing (meta e)) = Overwrite" by simp_all
    from o obtain w2 where p: "pr w1 (rel_path (file_record e)) existing (meta e) = (Overwrite, w2)"
      by (cases "pr w1 (rel_path (file_record e)) existing (meta e)") simp
    from process_entry_prompt [where rd=rd and s=s and e=e and pr=pr and ru=ru and args=args,
      OF r True n p] d
    show ?thesis by (simp add: apply_change_dry Let_def)
  qed
  from s1 show "processed (process_entry rd pr ru args s e) = processed s + 1" by simp
  from s1 show "skipped (process_entry rd pr ru args s e) = skipped s" by simp
  from s1 show "errors (process_entry rd pr ru args s e) = errors s" by simp
qed

theorem dry_run_writes_nothing_witness:
  "\<not> list_ex is_write
       (calls (run_migration example_reader (example_prompter Overwrite) example_runner dry_args ()
                 [pair_fresh, pair_conflict, pair_current]))
   \<and> processed (process_entry example_reader (example_prompter Overwrite) example_runner dry_args
                  (initial_session ()) pair_fresh) = 1
   \<and> new_calls (initial_session ())
        (process_entry example_reader (example_prompter Overwrite) example_runner dry_args
           (initial_session ()) pair_conflict)
       = [ReadCall (u ''/photos/100APPLE/IMG_2.JPG''), PromptCall (u ''100APPLE/IMG_2.JPG'') Overwrite]"
proof -
  have d: "dry_run dry_args" by (simp add: dry_args_def)
  from d dry_run_writes_nothing [where args=dry_args and rd=example_reader
      and pr="example_prompter Overwrite" and ru=example_runner and w="()"
      and matched="[pair_fresh, pair_conflict, pair_current]"
      and s="initial_session ()" and e=pair_fresh
      and existing="\<lparr>rating = None, exif_description = None\<rparr>" and ?w1.0="()"]
  have 1: "\<not> list_ex is_write
       (calls (run_migration example_reader (example_prompter Overwrite) example_runner dry_args ()
                 [pair_fresh, pair_conflict, pair_current]))"
    and 2: "processed (process_entry example_reader (example_prompter Overwrite) example_runner dry_args
                  (initial_session ()) pair_fresh) = 1"
    by (simp_all add: u_def example_reader_def pair_fresh_def needs_rating_def needs_description_def
          evaluate_conflict_def initial_session_def)
  from d dry_run_writes_nothing [where args=dry_args and rd=example_reader
      and pr="example_prompter Overwrite" and ru=example_runner
      and s="initial_session ()" and e=pair_conflict
      and existing="\<lparr>rating = Some 2, exif_description = Some (u ''Old'')\<rparr>" and ?w1.0="()"]
  have 3: "new_calls (initial_session ())
        (process_entry example_reader (example_prompter Overwrite) example_runner dry_args
           (initial_session ()) pair_conflict)
       = [ReadCall (u ''/photos/100APPLE/IMG_2.JPG''), PromptCall (u ''100APPLE/IMG_2.JPG'') Overwrite]"
    by (simp add: u_def example_reader_def example_prompter_def pair_conflict_def needs_rating_def
          needs_description_def evaluate_conflict_def initial_session_def)
  from 1 2 3 show ?thesis by simp
qed

section \<open>The claims about the path normalizer\<close>

text \<open>
  Claim C3, as the source has it, for every input path and whatever Python's Unicode
  tables say. A segment is a collection folder when its upper-cased form ends with
  \<^verbatim>\<open>APPLE\<close> and what precedes its last five characters is a digit string.
  \<open>truncate_to_apple_path\<close> cuts the forward-slash path in front of the first (leftmost)
  such segment and keeps that segment and everything after it; with no such segment it
  returns the path with its backslashes turned into slashes. The key is the lower-cased
  \<^verbatim>\<open>pathlib\<close> rendering of the result.
\<close>

theorem truncate_keeps_first_marker:
  "(is_apple_dir py part \<longleftrightarrow>
      endswith (str_upper py part) APPLE_SUFFIX \<and> str_isdigit py (take (length part - 5) part))
   \<and> (i < length (split_on slash (replace_backslash p))
        \<and> is_apple_dir py (split_on slash (replace_backslash p) ! i)
        \<and> (\<forall>j<i. \<not> is_apple_dir py (split_on slash (replace_backslash p) ! j))
      \<longrightarrow> truncate_to_apple_path py p = join [slash] (drop i (split_on slash (replace_backslash p))))
   \<and> ((\<forall>seg \<in> set (split_on slash (replace_backslash p)). \<not> is_apple_dir py seg)
      \<longrightarrow> truncate_to_apple_path py p = replace_backslash p)
   \<and> normalize_rel_path py (truncate_to_apple_path py p)
       = str_lower py (as_posix (truncate_to_apple_path py p))"
proof (intro conjI impI)
  show "is_apple_dir py part \<longleftrightarrow>
      endswith (str_upper py part) APPLE_SUFFIX \<and> str_isdigit py (take (length part - 5) part)"
    by (simp add: is_apple_dir_def)
next
  assume "i < length (split_on slash (replace_backslash p))
        \<and> is_apple_dir py (split_on slash (replace_backslash p) ! i)
        \<and> (\<forall>j<i. \<not> is_apple_dir py (split_on slash (replace_backslash p) ! j))"
  then have "truncate_loop py (split_on slash (replace_backslash p))
      = Some (join [slash] (drop i (split_on slash (replace_backslash p))))"
    by (intro truncate_loop_first_marker) simp_all
  then show "truncate_to_apple_path py p = join [slash] (drop i (split_on slash (replace_backslash p)))"
    by (simp add: truncate_to_apple_path_def)
next
  assume "\<forall>seg \<in> set (split_on slash (replace_backslash p)). \<not> is_apple_dir py seg"
  then have "truncate_loop py (split_on slash (replace_backslash p)) = None"
    by (rule truncate_loop_none)
  then show "truncate_to_apple_path py p = replace_backslash p"
    by (simp add: truncate_to_apple_path_def)
next
  show "normalize_rel_path py (truncate_to_apple_path py p)
       = str_lower py (as_posix (truncate_to_apple_path py p))"
    by (simp add: normalize_rel_path_def)
qed

theorem truncate_keeps_first_marker_witness:
  "truncate_to_apple_path ascii_str (u ''2019APPLE/DCIM/100APPLE/IMG_1.JPG'')
     = u ''2019APPLE/DCIM/100APPLE/IMG_1.JPG''
   \<and> truncate_to_apple_path ascii_str (u ''DCIM/100APPLE/IMG_1.JPG'') = u ''100APPLE/IMG_1.JPG''
   \<and> truncate_to_apple_path ascii_str (u ''Misc/IMG_1.JPG'') = u ''Misc/IMG_1.JPG''"
proof -
  have e: "split_on slash (replace_backslash (u ''2019APPLE/DCIM/100APPLE/IMG_1.JPG''))
             = [u ''2019APPLE'', u ''DCIM'', u ''100APPLE'', u ''IMG_1.JPG'']"
      "split_on slash (replace_backslash (u ''DCIM/100APPLE/IMG_1.JPG''))
             = [u ''DCIM'', u ''100APPLE'', u ''IMG_1.JPG'']"
      "split_on slash (replace_backslash (u ''Misc/IMG_1.JPG'')) = [u ''Misc'', u ''IMG_1.JPG'']"
    by (simp_all add: replace_backslash_def backslash_def slash_def u_def)
  have m: "is_apple_dir ascii_str (u ''2019APPLE'')" "\<not> is_apple_dir ascii_str (u ''DCIM'')"
      "is_apple_dir ascii_str (u ''100APPLE'')" "\<not> is_apple_dir ascii_str (u ''Misc'')"
      "\<not> is_apple_dir ascii_str (u ''IMG_1.JPG'')"
    by (simp_all add: is_apple_dir_def endswith_def ascii_str_def APPLE_SUFFIX_def u_def)
  have j: "join [slash] [u ''2019APPLE'', u ''DCIM'', u ''100APPLE'', u ''IMG_1.JPG'']
             = u ''2019APPLE/DCIM/100APPLE/IMG_1.JPG''"
      "join [slash] [u ''100APPLE'', u ''IMG_1.JPG''] = u ''100APPLE/IMG_1.JPG''"
      "replace_backslash (u ''Misc/IMG_1.JPG'') = u ''Misc/IMG_1.JPG''"
    by (simp_all add: replace_backslash_def backslash_def slash_def u_def)
  from truncate_keeps_first_marker [of ascii_str _ 0 "u ''2019APPLE/DCIM/100APPLE/IMG_1.JPG''"] e m j
  have 1: "truncate_to_apple_path ascii_str (u ''2019APPLE/DCIM/100APPLE/IMG_1.JPG'')
             = u ''2019APPLE/DCIM/100APPLE/IMG_1.JPG''"
    by simp
  from truncate_keeps_first_marker [of ascii_str _ 1 "u ''DCIM/100APPLE/IMG_1.JPG''"] e m j
  have 2: "truncate_to_apple_path ascii_str (u ''DCIM/100APPLE/IMG_1.JPG'') = u ''100APPLE/IMG_1.JPG''"
    by simp
  from truncate_keeps_first_marker [of ascii_str _ 0 "u ''Misc/IMG_1.JPG''"] e m j
  have 3: "truncate_to_apple_path ascii_str (u ''Misc/IMG_1.JPG'') = u ''Misc/IMG_1.JPG''"
    by simp
  from 1 2 3 show ?thesis by simp
qed

text \<open>
  Claim C3 as stated fails where a path has two collection-folder segments: the source
  keeps the path from the first one on, the specification's rightmost rule would keep it
  from the last one on, and the two keys differ.
\<close>

theorem rightmost_marker_counterexample:
  "truncate_to_apple_path ascii_str (u ''2019APPLE/DCIM/100APPLE/IMG_1.JPG'')
     = u ''2019APPLE/DCIM/100APPLE/IMG_1.JPG''
   \<and> spec_truncate_rightmost ascii_str (u ''2019APPLE/DCIM/100APPLE/IMG_1.JPG'')
     = u ''100APPLE/IMG_1.JPG''
   \<and> normalize_rel_path ascii_str (truncate_to_apple_path ascii_str (u ''2019APPLE/DCIM/100APPLE/IMG_1.JPG''))
       \<noteq> spec_path_normalizer ascii_str (u ''2019APPLE/DCIM/100APPLE/IMG_1.JPG'')"
  by code_simp

section \<open>The claims about the query and the extractor\<close>

text \<open>
  Claim C8. When the store answers, every record the extractor emits comes from a row of
  the joined relation that is not trashed (\<^verbatim>\<open>ZTRASHEDSTATE = 0\<close>) and has the favorite flag
  set (\<^verbatim>\<open>ZFAVORITE = 1\<close>) or a non-empty resolved description, the \<^verbatim>\<open>DESCRIPTION\<close> column
  of the query. A row that is trashed, or that has neither the favorite flag nor a
  non-empty resolved description, produces nothing: the extractor returns what it returns
  on the store without that row.
\<close>

theorem extractor_filter:
  "(table_info db = Inr tbls \<and> from_clause db (build_joins tbls) = Inr rel
    \<longrightarrow> (\<forall>km \<in> set (read_database_metadata py db).
           \<exists>r \<in> set rel.
             ZASSET_ZTRASHEDSTATE r = Some 0
             \<and> (ZASSET_ZFAVORITE r = Some 1
                \<or> DESCRIPTION (select_row (build_metadata_query tbls) r) \<noteq> Some [])
             \<and> km = (row_key py (select_row (build_metadata_query tbls) r),
                     row_meta py (select_row (build_metadata_query tbls) r))))
   \<and> (table_info db = Inr tbls \<and> from_clause db (build_joins tbls) = Inr (rel1 @ r # rel2)
        \<and> (ZASSET_ZTRASHEDSTATE r \<noteq> Some 0
            \<or> (ZASSET_ZFAVORITE r \<noteq> Some 1
                \<and> DESCRIPTION (select_row (build_metadata_query tbls) r) = Some []))
    \<longrightarrow> read_database_metadata py db
          = read_database_metadata py (db\<lparr>from_clause := \<lambda>js. Inr (rel1 @ rel2)\<rparr>))"
proof (intro conjI impI ballI)
  fix km
  assume a: "table_info db = Inr tbls \<and> from_clause db (build_joins tbls) = Inr rel"
    and k: "km \<in> set (read_database_metadata py db)"
  let ?q = "build_metadata_query tbls"
  from a k have "km \<in> set (collect_rows py [] (run_query ?q rel))"
    by (simp add: read_database_metadata_rows split: if_splits)
  with collect_rows_subset [of py "[]" "run_query ?q rel"]
  obtain row where row: "row \<in> set (run_query ?q rel)" and km: "km = (row_key py row, row_meta py row)"
    by auto
  from row obtain r where r: "r \<in> set rel" "eval_cond r (where_cond ?q) = Some True"
      "row = select_row ?q r"
    by (auto simp add: run_query_def)
  from r(2) have "ZASSET_ZTRASHEDSTATE r = Some 0
             \<and> (ZASSET_ZFAVORITE r = Some 1 \<or> DESCRIPTION (select_row ?q r) \<noteq> Some [])"
    by (simp add: where_cond_true)
  with r km show "\<exists>r \<in> set rel.
             ZASSET_ZTRASHEDSTATE r = Some 0
             \<and> (ZASSET_ZFAVORITE r = Some 1 \<or> DESCRIPTION (select_row ?q r) \<noteq> Some [])
             \<and> km = (row_key py (select_row ?q r), row_meta py (select_row ?q r))"
    by blast
next
  assume a: "table_info db = Inr tbls \<and> from_clause db (build_joins tbls) = Inr (rel1 @ r # rel2)
        \<and> (ZASSET_ZTRASHEDSTATE r \<noteq> Some 0
            \<or> (ZASSET_ZFAVORITE r \<noteq> Some 1
                \<and> DESCRIPTION (select_row (build_metadata_query tbls) r) = Some []))"
  let ?q = "build_metadata_query tbls"
  from a have "eval_cond r (where_cond ?q) \<noteq> Some True"
    by (auto simp add: where_cond_true)
  then have q: "run_query ?q (rel1 @ r # rel2) = run_query ?q (rel1 @ rel2)"
    by (rule run_query_skips)
  from a have 1: "read_database_metadata py db
      = (if query_resolves tbls ?q then collect_rows py [] (run_query ?q (rel1 @ r # rel2)) else [])"
    by (simp add: read_database_metadata_rows)
  from a have 2: "read_database_metadata py (db\<lparr>from_clause := \<lambda>js. Inr (rel1 @ rel2)\<rparr>)
      = (if query_resolves tbls ?q then collect_rows py [] (run_query ?q (rel1 @ rel2)) else [])"
    by (simp add: read_database_metadata_rows)
  from 1 2 q show "read_database_metadata py db
          = read_database_metadata py (db\<lparr>from_clause := \<lambda>js. Inr (rel1 @ rel2)\<rparr>)"
    by simp
qed

theorem extractor_filter_witness:
  "read_database_metadata ascii_str example_db
     = read_database_metadata ascii_str
         (example_db\<lparr>from_clause := \<lambda>js.
            Inr ([asset_row (u ''DCIM/100APPLE'') (u ''IMG_1.JPG'') 1 0 None None,
                  asset_row (u ''DCIM/100APPLE'') (u ''IMG_2.JPG'') 0 0
                    (Some (u ''Beach day'')) (Some (u ''Beach''))]
                 @ [asset_row (u ''DCIM/101APPLE'') (u ''IMG_4.JPG'') 1 1 None None])\<rparr>)
   \<and> map fst (read_database_metadata ascii_str example_db)
       = [u ''100apple/img_1.jpg'', u ''100apple/img_2.jpg'']"
proof -
  have h: "table_info example_db = Inr example_tables"
    "from_clause example_db (build_joins example_tables)
       = Inr ([asset_row (u ''DCIM/100APPLE'') (u ''IMG_1.JPG'') 1 0 None None,
               asset_row (u ''DCIM/100APPLE'') (u ''IMG_2.JPG'') 0 0
                 (Some (u ''Beach day'')) (Some (u ''Beach''))]
              @ asset_row (u ''DCIM/101APPLE'') (u ''IMG_3.HEIC'') 0 0 None (Some [])
              # [asset_row (u ''DCIM/101APPLE'') (u ''IMG_4.JPG'') 1 1 None None])"
    by (simp_all add: example_db_def example_rows_def)
  have e: "ZASSET_ZFAVORITE (asset_row (u ''DCIM/101APPLE'') (u ''IMG_3.HEIC'') 0 0 None (Some [])) \<noteq> Some 1
      \<and> DESCRIPTION (select_row (build_metadata_query example_tables)
            (asset_row (u ''DCIM/101APPLE'') (u ''IMG_3.HEIC'') 0 0 None (Some []))) = Some []"
    by code_simp
  have k: "map fst (read_database_metadata ascii_str example_db)
       = [u ''100apple/img_1.jpg'', u ''100apple/img_2.jpg'']"
    by code_simp
  from extractor_filter [of example_db example_tables _ ascii_str
      "[asset_row (u ''DCIM/100APPLE'') (u ''IMG_1.JPG'') 1 0 None None,
        asset_row (u ''DCIM/100APPLE'') (u ''IMG_2.JPG'') 0 0
          (Some (u ''Beach day'')) (Some (u ''Beach''))]"
      "asset_row (u ''DCIM/101APPLE'') (u ''IMG_3.HEIC'') 0 0 None (Some [])"
      "[asset_row (u ''DCIM/101APPLE'') (u ''IMG_4.JPG'') 1 1 None None]"] h e k
  show ?thesis by blast
qed

text \<open>
  Claim C9, on the source: the schema has the title and the long description, but neither
  of the two columns that tie the description table to the attributes table. The
  resolver puts the long description clause in front of the title clause and joins only
  the attributes table, so the query names a column of a table that is not joined: it
  does not resolve, and the extractor returns nothing, where the first non-empty value of
  the sources present is the title \<^verbatim>\<open>Beach\<close>. On the store whose schema has the tying
  column, the same resolver yields the long description before the title.
\<close>

theorem unjoined_long_description_fails:
  "source_present unjoined_tables LongDescription
   \<and> source_present unjoined_tables Title
   \<and> spec_resolved_description unjoined_tables unjoined_row = u ''Beach''
   \<and> build_desc_clauses unjoined_tables = [long_description_clause, title_clause]
   \<and> map join_table (build_joins unjoined_tables) = [ZADDITIONALASSETATTRIBUTES]
   \<and> query_resolves unjoined_tables (build_metadata_query unjoined_tables) = False
   \<and> read_database_metadata ascii_str unjoined_db = []
   \<and> map (\<lambda>km. description (snd km)) (read_database_metadata ascii_str example_db)
       = [[], u ''Beach day'']"
  by code_simp

section \<open>The claims about the join keys and about storage failures\<close>

text \<open>
  Claim C1, on the source: the store records a photo in the directory \<^verbatim>\<open>DCIM/100APPLE\<close>,
  and the same photo lies at \<^verbatim>\<open>DCIM/100APPLE/IMG_1.JPG\<close> below the scan root
  \<^verbatim>\<open>/backup\<close>. The extractor cuts the store's path in front of \<^verbatim>\<open>100APPLE\<close>; the scanner,
  which accepts the directory because one of its segments is a collection folder, does not
  cut. The two keys differ and the matcher pairs nothing. With \<^verbatim>\<open>/backup/DCIM\<close> as the scan
  root the same photos are paired.
\<close>

theorem scan_keeps_root_prefix:
  "map fst (read_database_metadata ascii_str example_db)
     = [u ''100apple/img_1.jpg'', u ''100apple/img_2.jpg'']
   \<and> map fst (scan_photo_files ascii_str (u ''/backup'') (Some nested_walk))
       = [u ''dcim/100apple/img_1.jpg'', u ''dcim/100apple/img_2.jpg'']
   \<and> match_metadata (read_database_metadata ascii_str example_db)
        (scan_photo_files ascii_str (u ''/backup'') (Some nested_walk)) = []
   \<and> map (\<lambda>mp. rel_path (file_record mp))
        (match_metadata (read_database_metadata ascii_str example_db)
           (scan_photo_files ascii_str (u ''/backup/DCIM'') (Some example_walk)))
       = [u ''100APPLE/IMG_1.JPG'', u ''100APPLE/IMG_2.JPG'']"
  by code_simp

text \<open>
  Claim C2, as the source has it. When the store fails while it is read, the extraction
  returns the empty dictionary: no partial result, and no error either. The run goes on
  to the scan, pairs nothing, calls neither the tool nor the console, and leaves the
  counters at zero; once the dependency check and the validation have passed, it ends
  with \<open>EXIT_NO_PHOTOS\<close> when the scan finds no file and with \<open>EXIT_SUCCESS\<close> otherwise.
\<close>

theorem store_failure_reads_empty:
  "store_read_fails db \<longrightarrow>
     read_database_metadata py db = []
   \<and> snd (main py rd pr ru args w exiftool_found db photo_dir walk) = initial_session w
   \<and> (exiftool_found \<and> validate_database db \<longrightarrow>
        fst (main py rd pr ru args w exiftool_found db photo_dir walk)
          = (if scan_photo_files py photo_dir walk = [] then EXIT_NO_PHOTOS else EXIT_SUCCESS))"
proof (intro impI conjI)
  assume f: "store_read_fails db"
  then show e: "read_database_metadata py db = []" by (rule store_failure_empty)
  show "snd (main py rd pr ru args w exiftool_found db photo_dir walk) = initial_session w"
    by (simp add: main_def e Let_def)
next
  assume f: "store_read_fails db" and v: "exiftool_found \<and> validate_database db"
  from f have e: "read_database_metadata py db = []" by (rule store_failure_empty)
  from v show "fst (main py rd pr ru args w exiftool_found db photo_dir walk)
          = (if scan_photo_files py photo_dir walk = [] then EXIT_NO_PHOTOS else EXIT_SUCCESS)"
    by (simp add: main_def e Let_def)
qed

theorem store_failure_reads_empty_witness:
  "read_database_metadata ascii_str locked_db = []
   \<and> snd (main ascii_str example_reader (example_prompter Overwrite) example_runner live_args ()
             True locked_db (u ''/photos'') (Some example_walk)) = initial_session ()"
proof -
  have "store_read_fails locked_db"
    by code_simp
  with store_failure_reads_empty [of locked_db ascii_str example_reader
      "example_prompter Overwrite" example_runner live_args "()" True "u ''/photos''"
      "Some example_walk"]
  show ?thesis by blast
qed

text \<open>
  Claim C2 as stated fails on a locked store: the extraction returns what it returns on a
  store without assets, so the failure is not classified, and the run as a whole ends
  with the success code instead of aborting.
\<close>

theorem store_failure_counterexample:
  "store_read_fails locked_db
   \<and> read_database_metadata ascii_str locked_db = read_database_metadata ascii_str empty_db
   \<and> fst (main ascii_str example_reader (example_prompter Overwrite) example_runner live_args ()
             True locked_db (u ''/photos'') (Some example_walk)) = EXIT_SUCCESS"
  by code_simp

end
